theory Spec2Isabelle
  imports Complex_Main
begin

section \<open>The vectorized field wrapper \<^verbatim>\<open>getBHv_level2\<close>\<close>

subsection \<open>Arrays\<close>

text \<open>
  A numpy array is its shape together with its entries in row-major order. The wrapper
  never computes with the entries, it only copies them, so the entry type is a parameter;
  the two defaults need a zero and a one.
\<close>

record 'a ndarray =
  shape :: "nat list"
  data :: "'a list"

definition ndim :: "'a ndarray \<Rightarrow> nat" where
  "ndim a = length (shape a)"

text \<open>
  \<^verbatim>\<open>len(val)\<close> is the first entry of the shape. On a 0-d array Python raises a TypeError;
  line 100 calls it only under \<^verbatim>\<open>val.ndim == tdim\<close>, and every recorded \<^verbatim>\<open>tdim\<close> is 1 or 2
  (lemma \<open>tile_params_tdim\<close> below), so that case is never evaluated.
\<close>

definition len :: "'a ndarray \<Rightarrow> nat" where
  "len a = (case shape a of [] \<Rightarrow> 0 | n # _ \<Rightarrow> n)"

text \<open>\<^verbatim>\<open>np.array((0,0,0), dtype=float)\<close> and the like: a 1-d array from a tuple.\<close>

definition np_array :: "'a list \<Rightarrow> 'a ndarray" where
  "np_array xs = \<lparr>shape = [length xs], data = xs\<rparr>"

text \<open>
  \<^verbatim>\<open>np.tile(val, (n,1))\<close>, as it is reached on line 110 (\<^verbatim>\<open>val.ndim < 2\<close>): numpy first
  gives \<^verbatim>\<open>val\<close> two axes by prepending axes of length 1, so a shape \<^verbatim>\<open>(k,)\<close> becomes
  \<^verbatim>\<open>(1,k)\<close> and a 0-d array becomes \<^verbatim>\<open>(1,1)\<close>, and then repeats it \<open>n\<close> times along the
  first axis and once along the second.
\<close>

definition np_tile :: "'a ndarray \<Rightarrow> nat \<Rightarrow> 'a ndarray" where
  "np_tile val n =
     \<lparr>shape = [n, (case shape val of [] \<Rightarrow> 1 | k # _ \<Rightarrow> k)],
      data = concat (replicate n (data val))\<rparr>"

text \<open>
  \<^verbatim>\<open>np.array([val]*n)\<close>, as it is reached on line 112 (\<^verbatim>\<open>val.ndim < 1\<close>): a list of \<open>n\<close>
  references to the same array becomes an array with one more leading axis.
\<close>

definition np_array_repeat :: "'a ndarray \<Rightarrow> nat \<Rightarrow> 'a ndarray" where
  "np_array_repeat val n = \<lparr>shape = n # shape val, data = concat (replicate n (data val))\<rparr>"

text \<open>\<^verbatim>\<open>np.squeeze(B)\<close> drops every axis of length 1 and keeps the entries.\<close>

definition np_squeeze :: "'a ndarray \<Rightarrow> 'a ndarray" where
  "np_squeeze B = \<lparr>shape = filter (\<lambda>d. d \<noteq> 1) (shape B), data = data B\<rparr>"

subsection \<open>Keyword arguments and errors\<close>

text \<open>
  The keyword dictionary, typed as the docstring of \<^verbatim>\<open>getBv\<close> types it: \<^verbatim>\<open>source_type\<close> is
  a string, \<^verbatim>\<open>squeeze\<close> and \<^verbatim>\<open>bh\<close> are booleans, every other entry is array_like and is held
  under its key in \<open>arrays\<close>, already coerced by \<^verbatim>\<open>np.array(..., dtype=float)\<close>. A scipy
  Rotation is held as its quaternion array, so that \<^verbatim>\<open>as_quat\<close> and \<^verbatim>\<open>R.from_quat\<close> are
  both the identity on it. An absent key is \<open>None\<close>.
\<close>

record 'a kwargs =
  source_type :: "string option"
  squeeze :: "bool option"
  bh :: "bool option"
  arrays :: "string \<rightharpoonup> 'a ndarray"

type_synonym 'a rotation = "'a ndarray"

definition from_quat :: "'a ndarray \<Rightarrow> 'a rotation" where
  "from_quat q = q"

definition as_quat :: "'a rotation \<Rightarrow> 'a ndarray" where
  "as_quat r = r"

text \<open>
  The two messages of the wrapper, with the formatted part as data:
  \<^verbatim>\<open>f'Missing input keys: {str(kerr)}'\<close> and
  \<^verbatim>\<open>f'getBHv() bad array input lengths: {str(set(ns))}'\<close>.
\<close>

datatype message =
    Missing_input_keys string
  | Bad_array_input_lengths "nat set"

text \<open>
  \<open>Raised_in_level1\<close> stands for whatever exception \<^verbatim>\<open>getBH_level1\<close> raises itself; the
  wrapper does not catch it.
\<close>

datatype error =
    MagpylibBadUserInput message
  | Raised_in_level1

type_synonym 'a tile_params = "(string \<times> 'a ndarray \<times> nat) list"

subsection \<open>Lines 38 to 95: the mandatory and optional inputs\<close>

text \<open>
  \<open>required kw ks\<close> is a run of \<^verbatim>\<open>x = np.array(kwargs[key], dtype=float);
  tile_params[key] = (x, tdim)\<close> statements, in order: the first absent key raises the
  KeyError that line 93 turns into \<open>MagpylibBadUserInput\<close>.
\<close>

fun required :: "'a kwargs \<Rightarrow> (string \<times> nat) list \<Rightarrow> error + 'a tile_params" where
  "required kw [] = Inr []"
| "required kw ((key, tdim) # ks) =
     (case arrays kw key of
        None \<Rightarrow> Inl (MagpylibBadUserInput (Missing_input_keys key))
      | Some val \<Rightarrow>
          (case required kw ks of
             Inl e \<Rightarrow> Inl e
           | Inr tp \<Rightarrow> Inr ((key, val, tdim) # tp)))"

text \<open>Lines 57 to 91: the keys each source type reads, with their \<^verbatim>\<open>tdim\<close>, in source order.\<close>

definition class_specific :: "string \<Rightarrow> (string \<times> nat) list" where
  "class_specific src_type =
     (if src_type = ''Box'' then [(''magnetization'', 2), (''dimension'', 2)]
      else if src_type = ''Cylinder'' then [(''magnetization'', 2), (''dimension'', 2)]
      else if src_type = ''Sphere'' then [(''magnetization'', 2), (''diameter'', 1)]
      else if src_type = ''Dipole'' then [(''moment'', 2)]
      else if src_type = ''Circular'' then [(''current'', 1), (''diameter'', 1)]
      else if src_type = ''Line'' then
        [(''current'', 1), (''segment_start'', 2), (''segment_end'', 2)]
      else [])"

text \<open>
  The \<^verbatim>\<open>try\<close> block. It yields \<^verbatim>\<open>tile_params\<close> in insertion order and the value of
  \<^verbatim>\<open>squeeze\<close>, or the error of line 95.
\<close>

definition tile_params_of :: "('a::{zero,one}) kwargs \<Rightarrow> error + ('a tile_params \<times> bool)" where
  "tile_params_of kw =
     (case source_type kw of
        None \<Rightarrow> Inl (MagpylibBadUserInput (Missing_input_keys ''source_type''))
      | Some src_type \<Rightarrow>
          (case arrays kw ''observer'' of
             None \<Rightarrow> Inl (MagpylibBadUserInput (Missing_input_keys ''observer''))
           | Some poso \<Rightarrow>
               (let pos = (case arrays kw ''position'' of
                             None \<Rightarrow> np_array [0, 0, 0] | Some p \<Rightarrow> p);
                    rot = (case arrays kw ''orientation'' of
                             None \<Rightarrow> from_quat (np_array [0, 0, 0, 1]) | Some r \<Rightarrow> r);
                    sq = (case squeeze kw of None \<Rightarrow> True | Some b \<Rightarrow> b)
                in case required kw (class_specific src_type) of
                     Inl e \<Rightarrow> Inl e
                   | Inr tp \<Rightarrow>
                       Inr ((''observer'', poso, 2) # (''position'', pos, 2)
                            # (''orientation'', as_quat rot, 2) # tp, sq))))"

subsection \<open>Lines 99 to 124: batch length, tiling, the call of the kernel\<close>

text \<open>Line 100: \<^verbatim>\<open>ns = [len(val) for val,tdim in tile_params.values() if val.ndim == tdim]\<close>.\<close>

definition explicit_lengths :: "'a tile_params \<Rightarrow> nat list" where
  "explicit_lengths tp =
     map (\<lambda>(key, val, tdim). len val) (filter (\<lambda>(key, val, tdim). ndim val = tdim) tp)"

text \<open>Line 104: \<^verbatim>\<open>max(ns, default=1)\<close>.\<close>

fun max_default :: "nat list \<Rightarrow> nat \<Rightarrow> nat" where
  "max_default [] d = d"
| "max_default (x # xs) d = fold max xs x"

text \<open>Lines 108 to 114: the body of the loop, for one entry of \<^verbatim>\<open>tile_params\<close>.\<close>

definition tile_entry :: "nat \<Rightarrow> string \<times> 'a ndarray \<times> nat \<Rightarrow> 'a kwargs \<Rightarrow> 'a kwargs" where
  "tile_entry n e kw =
     (case e of (key, val, tdim) \<Rightarrow>
        if ndim val < tdim then
          (if tdim = 2 then kw\<lparr>arrays := (arrays kw)(key \<mapsto> np_tile val n)\<rparr>
           else if tdim = 1 then kw\<lparr>arrays := (arrays kw)(key \<mapsto> np_array_repeat val n)\<rparr>
           else kw)
        else kw\<lparr>arrays := (arrays kw)(key \<mapsto> val)\<rparr>)"

text \<open>
  The wrapper. \<^verbatim>\<open>getBH_level1\<close> lives in another module and is a parameter; it may return
  a field array or raise. The first component of the result is the list of argument
  dictionaries \<^verbatim>\<open>getBH_level1\<close> has been called with, in order, so that "the kernel was
  not invoked" is the statement that this list is empty. Line 117 rewraps the tiled
  quaternions with \<^verbatim>\<open>R.from_quat\<close>; the key is present there, the loop has just
  stored it.
\<close>

definition getBHv_level2 ::
  "(('a::{zero,one}) kwargs \<Rightarrow> error + 'a ndarray) \<Rightarrow> 'a kwargs
     \<Rightarrow> 'a kwargs list \<times> (error + 'a ndarray)" where
  "getBHv_level2 getBH_level1 kwargs =
     (case tile_params_of kwargs of
        Inl e \<Rightarrow> ([], Inl e)
      | Inr (tile_params, sq) \<Rightarrow>
          (let ns = explicit_lengths tile_params in
           if card (set ns) > 1 then
             ([], Inl (MagpylibBadUserInput (Bad_array_input_lengths (set ns))))
           else
             (let n = max_default ns 1;
                  kwargs1 = fold (tile_entry n) tile_params kwargs;
                  kwargs2 = kwargs1\<lparr>arrays :=
                              (arrays kwargs1)(''orientation'' :=
                                 map_option from_quat (arrays kwargs1 ''orientation''))\<rparr>
              in ([kwargs2],
                  (case getBH_level1 kwargs2 of
                     Inl e \<Rightarrow> Inl e
                   | Inr B \<Rightarrow> Inr (if sq then np_squeeze B else B))))))"

subsection \<open>The vocabulary of the specification\<close>

text \<open>
  Written from the specification, to be compared with the lookups of the code: the
  batched query has the mandatory keys \<^verbatim>\<open>source_type\<close> and \<^verbatim>\<open>observer\<close>, plus the
  required parameters of the table of analytical kernels (Box: magnetization, dimension;
  Cylinder: magnetization, dimension; Sphere: magnetization, diameter; Dipole: moment;
  Circular: current, diameter; Line: current, segment start and end).
\<close>

definition spec_required_parameters :: "string \<Rightarrow> string list" where
  "spec_required_parameters src_type =
     (if src_type = ''Box'' then [''magnetization'', ''dimension'']
      else if src_type = ''Cylinder'' then [''magnetization'', ''dimension'']
      else if src_type = ''Sphere'' then [''magnetization'', ''diameter'']
      else if src_type = ''Dipole'' then [''moment'']
      else if src_type = ''Circular'' then [''current'', ''diameter'']
      else if src_type = ''Line'' then [''current'', ''segment_start'', ''segment_end'']
      else [])"

text \<open>The six tags of the docstring of \<^verbatim>\<open>getBv\<close>.\<close>

definition supported_source_types :: "string list" where
  "supported_source_types = [''Box'', ''Cylinder'', ''Sphere'', ''Dipole'', ''Circular'', ''Line'']"

text \<open>Whether the caller has passed a key.\<close>

definition has_key :: "'a kwargs \<Rightarrow> string \<Rightarrow> bool" where
  "has_key kw key =
     (if key = ''source_type'' then source_type kw \<noteq> None
      else if key = ''squeeze'' then squeeze kw \<noteq> None
      else if key = ''bh'' then bh kw \<noteq> None
      else arrays kw key \<noteq> None)"

definition mandatory_keys :: "'a kwargs \<Rightarrow> string list" where
  "mandatory_keys kw =
     ''source_type'' # ''observer'' #
       (case source_type kw of
          None \<Rightarrow> []
        | Some src_type \<Rightarrow> spec_required_parameters src_type)"

text \<open>The mandatory keys the call omits, in the order above.\<close>

definition missing_keys :: "'a kwargs \<Rightarrow> string list" where
  "missing_keys kw = filter (\<lambda>key. \<not> has_key kw key) (mandatory_keys kw)"

text \<open>
  The declared rank of an input: 1 for the per-instance scalars \<^verbatim>\<open>current\<close> and
  \<^verbatim>\<open>diameter\<close>, 2 for the per-instance vectors. The declared inputs of a call are the
  general ones and the required parameters of its source type.
\<close>

definition spec_declared_rank :: "string \<Rightarrow> nat" where
  "spec_declared_rank key = (if key = ''current'' \<or> key = ''diameter'' then 1 else 2)"

definition declared_keys :: "'a kwargs \<Rightarrow> string list" where
  "declared_keys kw =
     ''observer'' # ''position'' # ''orientation'' #
       (case source_type kw of
          None \<Rightarrow> []
        | Some src_type \<Rightarrow> spec_required_parameters src_type)"

text \<open>
  The value a declared input takes: the one supplied, or the default of the two optional
  general inputs, the origin and the identity rotation.
\<close>

definition used_input :: "('a::{zero,one}) kwargs \<Rightarrow> string \<Rightarrow> 'a ndarray option" where
  "used_input kw key =
     (case arrays kw key of
        Some val \<Rightarrow> Some val
      | None \<Rightarrow>
          if key = ''position'' then Some (np_array [0, 0, 0])
          else if key = ''orientation'' then Some (np_array [0, 0, 0, 1])
          else None)"

text \<open>
  An explicit batch is a declared input whose rank equals its declared rank. The batch
  length \<open>N\<close> is inferred from the lengths of the explicit batches: their shared length,
  or 1 when there is none.
\<close>

definition explicit_batch :: "('a::{zero,one}) kwargs \<Rightarrow> string \<Rightarrow> bool" where
  "explicit_batch kw key =
     (case used_input kw key of
        None \<Rightarrow> False
      | Some val \<Rightarrow> ndim val = spec_declared_rank key)"

definition explicit_batch_lengths :: "('a::{zero,one}) kwargs \<Rightarrow> nat list" where
  "explicit_batch_lengths kw =
     map (\<lambda>key. len (the (used_input kw key))) (filter (explicit_batch kw) (declared_keys kw))"

definition batch_length :: "('a::{zero,one}) kwargs \<Rightarrow> nat" where
  "batch_length kw = max_default (explicit_batch_lengths kw) 1"

text \<open>
  An array is well formed when it has as many entries as its shape says. \<open>row a i\<close> is
  numpy's \<^verbatim>\<open>a[i]\<close> for \<open>i < len a\<close>: the \<open>i\<close>-th block of the entries, with the rest of
  the shape.
\<close>

definition well_formed :: "'a ndarray \<Rightarrow> bool" where
  "well_formed a = (length (data a) = prod_list (shape a))"

definition row :: "'a ndarray \<Rightarrow> nat \<Rightarrow> 'a ndarray" where
  "row a i =
     \<lparr>shape = tl (shape a),
      data = take (prod_list (tl (shape a))) (drop (i * prod_list (tl (shape a))) (data a))\<rparr>"

text \<open>A call with one more array entry, as the caller would write \<^verbatim>\<open>key=val\<close>.\<close>

definition call_with :: "'a kwargs \<Rightarrow> string \<Rightarrow> 'a ndarray \<Rightarrow> 'a kwargs" where
  "call_with kw key val = kw\<lparr>arrays := (arrays kw)(key \<mapsto> val)\<rparr>"

subsection \<open>The wrapper in closed form\<close>

text \<open>
  What lines 108 to 114 store for an entry of \<^verbatim>\<open>tile_params\<close> whose \<^verbatim>\<open>tdim\<close> is 1 or 2,
  the value of \<^verbatim>\<open>squeeze\<close> with its default, and the argument dictionary
  \<^verbatim>\<open>getBH_level1\<close> is called with when the call gets that far (lemma
  \<open>getBHv_level2_normal\<close> proves it of the code).
\<close>

definition tile_value :: "nat \<Rightarrow> 'a ndarray \<Rightarrow> nat \<Rightarrow> 'a ndarray" where
  "tile_value n val tdim =
     (if ndim val < tdim then (if tdim = 2 then np_tile val n else np_array_repeat val n)
      else val)"

definition squeeze_flag :: "'a kwargs \<Rightarrow> bool" where
  "squeeze_flag kw = (case squeeze kw of None \<Rightarrow> True | Some b \<Rightarrow> b)"

definition level1_arguments :: "('a::{zero,one}) kwargs \<Rightarrow> 'a kwargs" where
  "level1_arguments kw =
     kw\<lparr>arrays := (\<lambda>key.
        if key \<in> set (declared_keys kw)
        then Some (tile_value (batch_length kw) (the (used_input kw key)) (spec_declared_rank key))
        else arrays kw key)\<rparr>"

section \<open>The Collection class\<close>

text \<open>
  An object of the library (a source, a sensor) is its identity together with its
  \<^verbatim>\<open>object_type\<close> tag; two objects are equal when they are the same instance. What a
  caller passes to \<^verbatim>\<open>Collection(...)\<close> and \<^verbatim>\<open>add(...)\<close> is an object, a Collection (by
  reference) or a list of such. The store maps the address of each Collection to its
  \<^verbatim>\<open>_sources\<close> list; a method takes the store and the address \<open>self\<close> and returns the
  new store with the reference it returns.
\<close>

datatype obj = Obj (ident: nat) (object_type: string)

datatype inp = Object obj | Coll nat | Sequence "inp list"

type_synonym store = "nat \<Rightarrow> obj list"

datatype collection_error = ValueError

text \<open>
  Modelled from the spec: \<^verbatim>\<open>format_obj_input\<close> of \<^verbatim>\<open>magpylib._lib.utility\<close> is not among
  the sources. The Collection takes "source objects, Collections or arbitrary lists
  thereof" and keeps an "ordered list of sources": the helper flattens its input, in
  order, a Collection standing for its sources.
\<close>

fun flatten :: "store \<Rightarrow> inp \<Rightarrow> obj list" where
  "flatten h (Object x) = [x]"
| "flatten h (Coll c) = h c"
| "flatten h (Sequence xs) = concat (map (flatten h) xs)"

definition format_obj_input :: "store \<Rightarrow> inp list \<Rightarrow> obj list" where
  "format_obj_input h objects = concat (map (flatten h) objects)"

text \<open>
  Modelled from the spec: \<^verbatim>\<open>check_duplicates\<close> of \<^verbatim>\<open>magpylib._lib.utility\<close> is not among
  the sources. A Collection has "no duplicate source instances", and duplicates "will be
  eliminated automatically": the helper keeps one occurrence of each instance, here the
  first.
\<close>

definition check_duplicates :: "obj list \<Rightarrow> obj list" where
  "check_duplicates src_list = rev (remdups (rev src_list))"

text \<open>
  Modelled from the spec: \<^verbatim>\<open>only_allowed_src_types\<close> of \<^verbatim>\<open>magpylib._lib.utility\<close> is not
  among the sources. A Collection "contains only supported source types": the helper
  keeps the objects whose tag is one of the six source types.
\<close>

definition only_allowed_src_types :: "obj list \<Rightarrow> obj list" where
  "only_allowed_src_types src_list =
     filter (\<lambda>src. object_type src \<in> set supported_source_types) src_list"

text \<open>Lines 48 to 59: the setter of \<^verbatim>\<open>sources\<close>.\<close>

definition sources_setter :: "store \<Rightarrow> nat \<Rightarrow> inp list \<Rightarrow> store" where
  "sources_setter h self sources =
     (let src_list = format_obj_input h sources;
          src_list = check_duplicates src_list;
          src_list = only_allowed_src_types src_list
      in h(self := src_list))"

text \<open>
  Lines 31 to 37: \<^verbatim>\<open>Collection(*sources)\<close>, for the new object at address \<open>self\<close>. It
  returns the store and the reference to the new Collection.
\<close>

definition Collection_init :: "store \<Rightarrow> nat \<Rightarrow> inp list \<Rightarrow> store \<times> nat" where
  "Collection_init h self sources = (sources_setter h self sources, self)"

text \<open>Lines 82 to 105: \<^verbatim>\<open>add(self, *sources)\<close>.\<close>

definition add :: "store \<Rightarrow> nat \<Rightarrow> inp list \<Rightarrow> store \<times> nat" where
  "add h self sources =
     (let src_list = format_obj_input h sources;
          src_list = h self @ src_list;
          src_list = check_duplicates src_list
      in (h(self := src_list), self))"

text \<open>
  Lines 108 to 122: \<^verbatim>\<open>remove(self, source)\<close>. \<^verbatim>\<open>list.remove\<close> deletes the first occurrence
  and raises a ValueError when there is none.
\<close>

definition remove_source :: "store \<Rightarrow> nat \<Rightarrow> obj \<Rightarrow> collection_error + store \<times> nat" where
  "remove_source h self source =
     (if source \<in> set (h self) then Inr (h(self := remove1 source (h self)), self)
      else Inl ValueError)"

text \<open>Lines 63 to 70: \<^verbatim>\<open>__add__\<close> and \<^verbatim>\<open>__sub__\<close>, the operators \<^verbatim>\<open>+\<close> and \<^verbatim>\<open>-\<close>.\<close>

definition dunder_add :: "store \<Rightarrow> nat \<Rightarrow> inp \<Rightarrow> store \<times> nat" where
  "dunder_add h self source = (case add h self [source] of (h', _) \<Rightarrow> (h', self))"

definition dunder_sub :: "store \<Rightarrow> nat \<Rightarrow> obj \<Rightarrow> collection_error + store \<times> nat" where
  "dunder_sub h self source =
     (case remove_source h self source of
        Inl e \<Rightarrow> Inl e
      | Inr (h', _) \<Rightarrow> Inr (h', self))"

section \<open>Example inputs\<close>

text \<open>
  Two stand-ins for \<^verbatim>\<open>getBH_level1\<close>: one returns a field of zeros with one row per
  observer row, the other returns the observer rows it was given.
\<close>

definition zero_field :: "real kwargs \<Rightarrow> error + real ndarray" where
  "zero_field kw =
     (case arrays kw ''observer'' of
        None \<Rightarrow> Inl Raised_in_level1
      | Some obs \<Rightarrow> Inr \<lparr>shape = [len obs, 3], data = replicate (len obs * 3) 0\<rparr>)"

definition echo_observer :: "real kwargs \<Rightarrow> error + real ndarray" where
  "echo_observer kw =
     (case arrays kw ''observer'' of
        None \<Rightarrow> Inl Raised_in_level1
      | Some obs \<Rightarrow> Inr obs)"

text \<open>An array of zeros of a given shape, \<^verbatim>\<open>np.zeros(s)\<close>.\<close>

definition zeros :: "nat list \<Rightarrow> real ndarray" where
  "zeros s = \<lparr>shape = s, data = replicate (prod_list s) 0\<rparr>"

text \<open>\<^verbatim>\<open>getBv(source_type='Box', observer=(1,2,3), magnetization=(0,0,1000))\<close>\<close>

definition box_without_dimension :: "real kwargs" where
  "box_without_dimension =
     \<lparr>source_type = Some ''Box'', squeeze = None, bh = Some True,
      arrays = [''observer'' \<mapsto> np_array [1, 2, 3],
                ''magnetization'' \<mapsto> np_array [0, 0, 1000]]\<rparr>"

text \<open>
  \<^verbatim>\<open>getBv(source_type='Box', observer=np.zeros((3,3)), position=np.zeros((5,3)),
  dimension=(1,1,1))\<close>: two explicit batches of different lengths, and no magnetization.
\<close>

definition box_mismatch_without_magnetization :: "real kwargs" where
  "box_mismatch_without_magnetization =
     \<lparr>source_type = Some ''Box'', squeeze = None, bh = Some True,
      arrays = [''observer'' \<mapsto> zeros [3, 3], ''position'' \<mapsto> zeros [5, 3],
                ''dimension'' \<mapsto> np_array [1, 1, 1]]\<rparr>"

text \<open>The same call with the magnetization supplied.\<close>

definition box_mismatch :: "real kwargs" where
  "box_mismatch =
     \<lparr>source_type = Some ''Box'', squeeze = None, bh = Some True,
      arrays = [''observer'' \<mapsto> zeros [3, 3], ''position'' \<mapsto> zeros [5, 3],
                ''magnetization'' \<mapsto> np_array [0, 0, 1000],
                ''dimension'' \<mapsto> np_array [1, 1, 1]]\<rparr>"

text \<open>\<^verbatim>\<open>getBv(source_type='Cube', observer=(1,2,3))\<close>\<close>

definition cube_call :: "real kwargs" where
  "cube_call =
     \<lparr>source_type = Some ''Cube'', squeeze = None, bh = Some True,
      arrays = [''observer'' \<mapsto> np_array [1, 2, 3]]\<rparr>"

text \<open>
  \<^verbatim>\<open>getBv(source_type='Dipole', observer=np.zeros((2,5,3)), moment=(0,0,1))\<close>: the
  observer has rank 3 where rank 2 is declared.
\<close>

definition dipole_rank3_observer :: "real kwargs" where
  "dipole_rank3_observer =
     \<lparr>source_type = Some ''Dipole'', squeeze = None, bh = Some True,
      arrays = [''observer'' \<mapsto> zeros [2, 5, 3], ''moment'' \<mapsto> np_array [0, 0, 1]]\<rparr>"

text \<open>
  \<^verbatim>\<open>getBv(source_type='Sphere', observer=np.zeros((4,3)), magnetization=(0,0,1000),
  diameter=2.0)\<close>: one explicit batch of length 4, the other inputs single instances.
\<close>

definition sphere_batch :: "real kwargs" where
  "sphere_batch =
     \<lparr>source_type = Some ''Sphere'', squeeze = None, bh = Some True,
      arrays = [''observer'' \<mapsto> zeros [4, 3], ''magnetization'' \<mapsto> np_array [0, 0, 1000],
                ''diameter'' \<mapsto> \<lparr>shape = [], data = [2]\<rparr>]\<rparr>"

text \<open>\<^verbatim>\<open>getBv(source_type='Dipole', observer=np.zeros((4,3)), moment=(0,0,1))\<close>\<close>

definition dipole_batch :: "real kwargs" where
  "dipole_batch =
     \<lparr>source_type = Some ''Dipole'', squeeze = None, bh = Some True,
      arrays = [''observer'' \<mapsto> zeros [4, 3], ''moment'' \<mapsto> np_array [0, 0, 1]]\<rparr>"

text \<open>\<^verbatim>\<open>getBv(source_type='Dipole', moment=(0,0,1), observer=(1,0,0))\<close>\<close>

definition dipole_single :: "real kwargs" where
  "dipole_single =
     \<lparr>source_type = Some ''Dipole'', squeeze = None, bh = Some True,
      arrays = [''observer'' \<mapsto> np_array [1, 0, 0], ''moment'' \<mapsto> np_array [0, 0, 1]]\<rparr>"

text \<open>The empty store, a sensor and a magnet.\<close>

definition no_collections :: store where
  "no_collections = (\<lambda>_. [])"

definition a_sensor :: obj where
  "a_sensor = Obj 7 ''Sensor''"

definition a_box :: obj where
  "a_box = Obj 1 ''Box''"

text \<open>A store with one Collection, at address 0, holding the magnet.\<close>

definition one_collection :: store where
  "one_collection = fst (Collection_init no_collections 0 [Object a_box])"

section \<open>Properties of the wrapper\<close>

subsection \<open>The mandatory inputs\<close>

lemma class_specific_keys: "map fst (class_specific st) = spec_required_parameters st"
  by (simp add: class_specific_def spec_required_parameters_def)

lemma class_specific_entry:
  "(key, t) \<in> set (class_specific st) \<Longrightarrow>
     key \<noteq> ''source_type'' \<and> key \<noteq> ''squeeze'' \<and> key \<noteq> ''bh'' \<and>
     key \<noteq> ''observer'' \<and> key \<noteq> ''position'' \<and> key \<noteq> ''orientation'' \<and>
     (t = 1 \<or> t = 2)"
  by (auto simp: class_specific_def split: if_splits)

lemma required_missing:
  "filter (\<lambda>key. arrays kw key = None) (map fst ks) = key # rest
     \<Longrightarrow> required kw ks = Inl (MagpylibBadUserInput (Missing_input_keys key))"
proof (induction ks)
  case Nil
  then show ?case by simp
next
  case (Cons a ks)
  obtain k t where a: "a = (k, t)" by (cases a)
  show ?case
  proof (cases "arrays kw k")
    case None
    with Cons.prems a show ?thesis by simp
  next
    case (Some v)
    with Cons.prems a have "filter (\<lambda>key. arrays kw key = None) (map fst ks) = key # rest"
      by simp
    then have "required kw ks = Inl (MagpylibBadUserInput (Missing_input_keys key))"
      by (rule Cons.IH)
    with Some a show ?thesis by simp
  qed
qed

lemma required_present:
  "filter (\<lambda>key. arrays kw key = None) (map fst ks) = []
     \<Longrightarrow> required kw ks = Inr (map (\<lambda>(key, tdim). (key, the (arrays kw key), tdim)) ks)"
  by (induction ks) (auto split: option.splits if_splits)

lemma has_key_arrays:
  "key \<noteq> ''source_type'' \<Longrightarrow> key \<noteq> ''squeeze'' \<Longrightarrow> key \<noteq> ''bh''
     \<Longrightarrow> has_key kw key = (arrays kw key \<noteq> None)"
  by (simp add: has_key_def)

lemma filter_specific:
  "filter (\<lambda>key. \<not> has_key kw key) (map fst (class_specific st)) =
   filter (\<lambda>key. arrays kw key = None) (map fst (class_specific st))"
  by (rule filter_cong) (auto simp: has_key_arrays dest: class_specific_entry)

lemma getBHv_level2_missing:
  assumes "missing_keys kw \<noteq> []"
  shows "getBHv_level2 getBH_level1 kw =
           ([], Inl (MagpylibBadUserInput (Missing_input_keys (hd (missing_keys kw)))))"
proof (cases "source_type kw")
  case None
  then show ?thesis
    by (simp add: getBHv_level2_def tile_params_of_def missing_keys_def mandatory_keys_def
        has_key_def)
next
  case st: (Some src_type)
  show ?thesis
  proof (cases "arrays kw ''observer''")
    case None
    with st show ?thesis
      by (simp add: getBHv_level2_def tile_params_of_def missing_keys_def mandatory_keys_def
          has_key_def)
  next
    case (Some poso)
    with st assms
    have "filter (\<lambda>key. \<not> has_key kw key) (map fst (class_specific src_type)) \<noteq> []"
      by (simp add: missing_keys_def mandatory_keys_def has_key_def class_specific_keys)
    then obtain key rest where
      f: "filter (\<lambda>key. arrays kw key = None) (map fst (class_specific src_type)) = key # rest"
      unfolding filter_specific
      by (cases "filter (\<lambda>key. arrays kw key = None) (map fst (class_specific src_type))") auto
    then have r: "required kw (class_specific src_type) =
                    Inl (MagpylibBadUserInput (Missing_input_keys key))"
      by (rule required_missing)
    have "has_key kw ''source_type''" "has_key kw ''observer''"
      using st Some by (simp_all add: has_key_def)
    then have "missing_keys kw =
        filter (\<lambda>key. \<not> has_key kw key) (map fst (class_specific src_type))"
      using st by (simp add: missing_keys_def mandatory_keys_def class_specific_keys)
    with f have "missing_keys kw = key # rest"
      by (simp only: filter_specific)
    with st Some r show ?thesis
      by (simp add: getBHv_level2_def tile_params_of_def Let_def)
  qed
qed

text \<open>
  C4. A call that omits a mandatory key (\<^verbatim>\<open>source_type\<close>, \<^verbatim>\<open>observer\<close>, or a required
  parameter of its source type) raises \<open>MagpylibBadUserInput\<close> with the message
  "Missing input keys" naming the first omitted key in the order the code reads them,
  and \<^verbatim>\<open>getBH_level1\<close> is not called.
\<close>

theorem missing_key_raises:
  assumes "missing_keys kw \<noteq> []"
  shows "getBHv_level2 getBH_level1 kw =
           ([], Inl (MagpylibBadUserInput (Missing_input_keys (hd (missing_keys kw)))))"
  using assms by (rule getBHv_level2_missing)

theorem missing_key_raises_witness:
  "missing_keys box_without_dimension \<noteq> [] \<and>
   getBHv_level2 zero_field box_without_dimension =
     ([], Inl (MagpylibBadUserInput (Missing_input_keys ''dimension'')))"
proof -
  have m: "missing_keys box_without_dimension = [''dimension'']"
    by (simp add: missing_keys_def mandatory_keys_def has_key_def box_without_dimension_def
        spec_required_parameters_def)
  then have h: "missing_keys box_without_dimension \<noteq> []"
    by simp
  show ?thesis
    using missing_key_raises [OF h, of zero_field] m by simp
qed

subsection \<open>The entries of \<^verbatim>\<open>tile_params\<close> are the declared inputs\<close>

lemma class_specific_rank:
  "(key, t) \<in> set (class_specific st) \<Longrightarrow> t = spec_declared_rank key"
  by (auto simp: class_specific_def spec_declared_rank_def split: if_splits)

lemma class_specific_distinct: "distinct (map fst (class_specific st))"
  by (simp add: class_specific_def)

lemma required_Inr:
  "required kw ks = Inr tp \<Longrightarrow>
     tp = map (\<lambda>(key, tdim). (key, the (arrays kw key), tdim)) ks \<and>
     (\<forall>key \<in> set (map fst ks). arrays kw key \<noteq> None)"
proof (induction ks arbitrary: tp)
  case Nil
  then show ?case by simp
next
  case (Cons a ks)
  obtain k t where a: "a = (k, t)" by (cases a)
  from Cons.prems a obtain v tp' where v: "arrays kw k = Some v"
    and r: "required kw ks = Inr tp'" and tp: "tp = (k, v, t) # tp'"
    by (auto split: option.splits sum.splits)
  from Cons.IH [OF r] v tp a show ?case by simp
qed

lemma has_key_required:
  "key \<in> set (spec_required_parameters st) \<Longrightarrow> has_key kw key = (arrays kw key \<noteq> None)"
proof -
  assume "key \<in> set (spec_required_parameters st)"
  then obtain t where "(key, t) \<in> set (class_specific st)"
    unfolding class_specific_keys [symmetric] by auto
  then show ?thesis
    using class_specific_entry has_key_arrays by blast
qed

lemma missing_keys_Nil_iff:
  "missing_keys kw = [] \<longleftrightarrow>
     (\<exists>st. source_type kw = Some st \<and> arrays kw ''observer'' \<noteq> None \<and>
        (\<forall>key \<in> set (spec_required_parameters st). arrays kw key \<noteq> None))"
proof (cases "source_type kw")
  case None
  then show ?thesis by (simp add: missing_keys_def mandatory_keys_def has_key_def)
next
  case (Some st)
  have o: "has_key kw ''source_type''" "has_key kw ''observer'' = (arrays kw ''observer'' \<noteq> None)"
    using Some by (simp_all add: has_key_def)
  have "missing_keys kw = [] \<longleftrightarrow>
      has_key kw ''observer'' \<and> (\<forall>key \<in> set (spec_required_parameters st). has_key kw key)"
    using Some o(1) by (simp add: missing_keys_def mandatory_keys_def filter_empty_conv)
  also have "\<dots> \<longleftrightarrow> arrays kw ''observer'' \<noteq> None \<and>
      (\<forall>key \<in> set (spec_required_parameters st). arrays kw key \<noteq> None)"
    using o(2) has_key_required [of _ st kw] by blast
  finally show ?thesis using Some by simp
qed

lemma used_input_present: "arrays kw key = Some v \<Longrightarrow> used_input kw key = Some v"
  by (simp add: used_input_def)

lemma required_spec:
  assumes "\<forall>key \<in> set (map fst ks). arrays kw key \<noteq> None"
      and "\<forall>(key, t) \<in> set ks. t = spec_declared_rank key"
  shows "required kw ks =
           Inr (map (\<lambda>key. (key, the (used_input kw key), spec_declared_rank key)) (map fst ks))"
  using assms
proof (induction ks)
  case Nil
  then show ?case by simp
next
  case (Cons a ks)
  obtain k t where a: "a = (k, t)" by (cases a)
  from Cons.prems a obtain v where v: "arrays kw k = Some v" by auto
  from Cons.prems a have t: "t = spec_declared_rank k" by simp
  from Cons.prems have "required kw ks =
      Inr (map (\<lambda>key. (key, the (used_input kw key), spec_declared_rank key)) (map fst ks))"
    by (intro Cons.IH) auto
  with a v t show ?case by (simp add: used_input_present)
qed

lemma tile_params_of_spec:
  assumes "missing_keys kw = []"
  shows "tile_params_of kw =
           Inr (map (\<lambda>key. (key, the (used_input kw key), spec_declared_rank key))
                  (declared_keys kw), squeeze_flag kw)"
proof -
  from assms obtain st poso where st: "source_type kw = Some st"
    and obs: "arrays kw ''observer'' = Some poso"
    and req: "\<forall>key \<in> set (spec_required_parameters st). arrays kw key \<noteq> None"
    unfolding missing_keys_Nil_iff by auto
  have "required kw (class_specific st) =
      Inr (map (\<lambda>key. (key, the (used_input kw key), spec_declared_rank key))
             (map fst (class_specific st)))"
    using req class_specific_rank [of _ _ st]
    by (intro required_spec) (auto simp: class_specific_keys)
  then have r: "required kw (class_specific st) =
      Inr (map (\<lambda>key. (key, the (used_input kw key), spec_declared_rank key))
             (spec_required_parameters st))"
    by (simp only: class_specific_keys)
  show ?thesis
    using st obs
    by (simp add: tile_params_of_def r declared_keys_def squeeze_flag_def used_input_def
        spec_declared_rank_def from_quat_def as_quat_def split: option.splits)
qed

lemma explicit_lengths_spec:
  "explicit_lengths (map (\<lambda>key. (key, the (used_input kw key), spec_declared_rank key)) ks) =
     map (\<lambda>key. len (the (used_input kw key)))
       (filter (\<lambda>key. ndim (the (used_input kw key)) = spec_declared_rank key) ks)"
  by (induction ks) (simp_all add: explicit_lengths_def)

lemma used_input_None:
  "used_input kw key = None \<longleftrightarrow>
     arrays kw key = None \<and> key \<noteq> ''position'' \<and> key \<noteq> ''orientation''"
  by (cases "arrays kw key") (simp_all add: used_input_def)

lemma used_input_declared:
  assumes "missing_keys kw = []" and "key \<in> set (declared_keys kw)"
  shows "\<exists>v. used_input kw key = Some v"
proof -
  from assms(1) obtain st poso where st: "source_type kw = Some st"
    and obs: "arrays kw ''observer'' = Some poso"
    and req: "\<forall>key \<in> set (spec_required_parameters st). arrays kw key \<noteq> None"
    unfolding missing_keys_Nil_iff by auto
  from assms(2) st consider "key = ''observer''" | "key = ''position''" | "key = ''orientation''"
    | "key \<in> set (spec_required_parameters st)"
    unfolding declared_keys_def by fastforce
  then have "used_input kw key \<noteq> None"
  proof cases
    case 1
    with obs show ?thesis by (simp add: used_input_None)
  next
    case 2
    then show ?thesis by (simp add: used_input_None)
  next
    case 3
    then show ?thesis by (simp add: used_input_None)
  next
    case 4
    with req show ?thesis by (simp add: used_input_None)
  qed
  then show ?thesis by blast
qed

lemma explicit_lengths_declared:
  assumes "missing_keys kw = []"
  shows "explicit_lengths (map (\<lambda>key. (key, the (used_input kw key), spec_declared_rank key))
           (declared_keys kw)) = explicit_batch_lengths kw"
proof -
  have "filter (\<lambda>key. ndim (the (used_input kw key)) = spec_declared_rank key) (declared_keys kw)
      = filter (explicit_batch kw) (declared_keys kw)"
  proof (rule filter_cong [OF refl])
    fix key assume "key \<in> set (declared_keys kw)"
    with assms obtain v where "used_input kw key = Some v"
      using used_input_declared by blast
    then show "(ndim (the (used_input kw key)) = spec_declared_rank key) = explicit_batch kw key"
      by (simp add: explicit_batch_def)
  qed
  then show ?thesis
    by (simp add: explicit_lengths_spec explicit_batch_lengths_def)
qed

lemma spec_required_distinct: "distinct (spec_required_parameters st)"
  by (simp add: spec_required_parameters_def)

lemma spec_required_not_general:
  "key \<in> set (spec_required_parameters st) \<Longrightarrow>
     key \<noteq> ''observer'' \<and> key \<noteq> ''position'' \<and> key \<noteq> ''orientation''"
  using class_specific_entry [of key _ st] unfolding class_specific_keys [symmetric] by auto

lemma declared_keys_distinct: "distinct (declared_keys kw)"
  using spec_required_distinct spec_required_not_general
  by (auto simp: declared_keys_def split: option.splits)

lemma spec_declared_rank_cases: "spec_declared_rank key = 1 \<or> spec_declared_rank key = 2"
  by (simp add: spec_declared_rank_def)

subsection \<open>The tiling loop\<close>

lemma tile_entry_fields:
  "source_type (tile_entry n e kw) = source_type kw"
  "squeeze (tile_entry n e kw) = squeeze kw"
  "bh (tile_entry n e kw) = bh kw"
  by (auto simp: tile_entry_def split: prod.splits)

lemma tile_entry_other:
  "key \<noteq> fst e \<Longrightarrow> arrays (tile_entry n e kw) key = arrays kw key"
  by (auto simp: tile_entry_def split: prod.splits)

lemma tile_entry_key:
  "t = 1 \<or> t = 2 \<Longrightarrow> arrays (tile_entry n (key, v, t) kw) key = Some (tile_value n v t)"
  by (auto simp: tile_entry_def tile_value_def)

lemma fold_tile_entry_fields:
  "source_type (fold (tile_entry n) tp kw) = source_type kw \<and>
   squeeze (fold (tile_entry n) tp kw) = squeeze kw \<and>
   bh (fold (tile_entry n) tp kw) = bh kw"
  by (induction tp arbitrary: kw) (simp_all add: tile_entry_fields)

lemma fold_tile_entry_other:
  "key \<notin> fst ` set tp \<Longrightarrow> arrays (fold (tile_entry n) tp kw) key = arrays kw key"
  by (induction tp arbitrary: kw) (simp_all add: tile_entry_other)

lemma fold_tile_entry_key:
  assumes "distinct (map fst tp)" and "(key, v, t) \<in> set tp"
      and "\<forall>(k, v, t) \<in> set tp. t = 1 \<or> t = 2"
  shows "arrays (fold (tile_entry n) tp kw) key = Some (tile_value n v t)"
  using assms
proof (induction tp arbitrary: kw)
  case Nil
  then show ?case by simp
next
  case (Cons a tp)
  show ?case
  proof (cases "a = (key, v, t)")
    case True
    with Cons.prems have "key \<notin> fst ` set tp" and "t = 1 \<or> t = 2" by auto
    then show ?thesis
      using True by (simp add: fold_tile_entry_other tile_entry_key)
  next
    case False
    with Cons.prems have "(key, v, t) \<in> set tp" by simp
    moreover from Cons.prems have "distinct (map fst tp)" "\<forall>(k, v, t) \<in> set tp. t = 1 \<or> t = 2"
      by simp_all
    ultimately show ?thesis
      using Cons.IH by simp
  qed
qed

lemma tile_entry_update: "tile_entry n e kw = kw\<lparr>arrays := arrays (tile_entry n e kw)\<rparr>"
  by (auto simp: tile_entry_def split: prod.splits)

lemma fold_tile_entry_update:
  "fold (tile_entry n) tp kw = kw\<lparr>arrays := arrays (fold (tile_entry n) tp kw)\<rparr>"
proof (induction tp arbitrary: kw)
  case Nil
  show ?case by simp
next
  case (Cons e tp)
  have "fold (tile_entry n) (e # tp) kw = fold (tile_entry n) tp (tile_entry n e kw)"
    by simp
  also have "\<dots> = (tile_entry n e kw)\<lparr>arrays := arrays (fold (tile_entry n) tp (tile_entry n e kw))\<rparr>"
    by (rule Cons.IH)
  also have "\<dots> = (kw\<lparr>arrays := arrays (tile_entry n e kw)\<rparr>)
                     \<lparr>arrays := arrays (fold (tile_entry n) tp (tile_entry n e kw))\<rparr>"
    using tile_entry_update [of n e kw] by simp
  finally show ?case by simp
qed

lemma fold_tile_entry_declared:
  fixes kw :: "('a::{zero,one}) kwargs"
  assumes "missing_keys kw = []"
  shows "fold (tile_entry n)
           (map (\<lambda>key. (key, the (used_input kw key), spec_declared_rank key)) (declared_keys kw)) kw
         = kw\<lparr>arrays := (\<lambda>key.
             if key \<in> set (declared_keys kw)
             then Some (tile_value n (the (used_input kw key)) (spec_declared_rank key))
             else arrays kw key)\<rparr>"
    (is "fold _ ?tp kw = kw\<lparr>arrays := ?f\<rparr>")
proof -
  have d: "distinct (map fst ?tp)"
    using declared_keys_distinct [of kw] by (simp add: comp_def)
  have t: "\<forall>(k, v, t) \<in> set ?tp. t = 1 \<or> t = 2"
    using spec_declared_rank_cases by auto
  have "arrays (fold (tile_entry n) ?tp kw) key = ?f key" for key
  proof (cases "key \<in> set (declared_keys kw)")
    case True
    then have "(key, the (used_input kw key), spec_declared_rank key) \<in> set ?tp"
      by auto
    from fold_tile_entry_key [OF d this t] True show ?thesis by simp
  next
    case False
    then have "key \<notin> fst ` set ?tp" by (auto simp: image_iff)
    then show ?thesis using False by (simp add: fold_tile_entry_other)
  qed
  then have "arrays (fold (tile_entry n) ?tp kw) = ?f" by (rule ext)
  with fold_tile_entry_update [of n ?tp kw] show ?thesis by simp
qed

lemma getBHv_level2_normal:
  fixes kw :: "('a::{zero,one}) kwargs"
  assumes "missing_keys kw = []" and "card (set (explicit_batch_lengths kw)) \<le> 1"
  shows "getBHv_level2 getBH_level1 kw =
           ([level1_arguments kw],
            (case getBH_level1 (level1_arguments kw) of
               Inl e \<Rightarrow> Inl e
             | Inr B \<Rightarrow> Inr (if squeeze_flag kw then np_squeeze B else B)))"
proof -
  let ?tp = "map (\<lambda>key. (key, the (used_input kw key), spec_declared_rank key)) (declared_keys kw)"
  have tp: "tile_params_of kw = Inr (?tp, squeeze_flag kw)"
    using assms(1) by (rule tile_params_of_spec)
  have ns: "explicit_lengths ?tp = explicit_batch_lengths kw"
    using assms(1) by (rule explicit_lengths_declared)
  have f: "fold (tile_entry (batch_length kw)) ?tp kw = level1_arguments kw"
    using fold_tile_entry_declared [OF assms(1)] by (simp add: level1_arguments_def)
  have o: "(level1_arguments kw)\<lparr>arrays := (arrays (level1_arguments kw))(''orientation'' :=
             map_option from_quat (arrays (level1_arguments kw) ''orientation''))\<rparr>
           = level1_arguments kw"
  proof -
    have "map_option from_quat x = x" for x :: "'a ndarray option"
      by (cases x) (simp_all add: from_quat_def)
    then show ?thesis by simp
  qed
  have "\<not> 1 < card (set (explicit_batch_lengths kw))"
    using assms(2) by simp
  then show ?thesis
    unfolding getBHv_level2_def tp
    by (simp add: ns Let_def batch_length_def [symmetric] f o del: fold_simps One_nat_def)
qed

lemma getBHv_level2_bad_lengths:
  fixes kw :: "('a::{zero,one}) kwargs"
  assumes "missing_keys kw = []" and "1 < card (set (explicit_batch_lengths kw))"
  shows "getBHv_level2 getBH_level1 kw =
           ([], Inl (MagpylibBadUserInput
                       (Bad_array_input_lengths (set (explicit_batch_lengths kw)))))"
proof -
  let ?tp = "map (\<lambda>key. (key, the (used_input kw key), spec_declared_rank key)) (declared_keys kw)"
  have tp: "tile_params_of kw = Inr (?tp, squeeze_flag kw)"
    using assms(1) by (rule tile_params_of_spec)
  have ns: "explicit_lengths ?tp = explicit_batch_lengths kw"
    using assms(1) by (rule explicit_lengths_declared)
  show ?thesis
    unfolding getBHv_level2_def tp using assms(2) by (simp add: ns Let_def)
qed

subsection \<open>Conflicting lengths\<close>

lemma box_mismatch_lengths: "explicit_batch_lengths box_mismatch = [3, 5]"
  by (simp add: explicit_batch_lengths_def explicit_batch_def declared_keys_def used_input_def
      box_mismatch_def spec_required_parameters_def spec_declared_rank_def ndim_def len_def
      zeros_def np_array_def)

lemma box_mismatch_missing: "missing_keys box_mismatch = []"
  by (simp add: missing_keys_def mandatory_keys_def has_key_def box_mismatch_def
      spec_required_parameters_def)

text \<open>
  C1, as amended. A call that supplies every mandatory key and whose explicit batches
  (the declared inputs whose rank equals their declared rank) have more than one distinct
  length raises \<open>MagpylibBadUserInput\<close> with the message "bad array input lengths" naming
  the set of these lengths, and \<^verbatim>\<open>getBH_level1\<close> is not called.
\<close>

theorem length_mismatch_raises:
  fixes kw :: "('a::{zero,one}) kwargs"
  assumes "missing_keys kw = []" and "1 < card (set (explicit_batch_lengths kw))"
  shows "getBHv_level2 getBH_level1 kw =
           ([], Inl (MagpylibBadUserInput
                       (Bad_array_input_lengths (set (explicit_batch_lengths kw)))))"
  using assms by (rule getBHv_level2_bad_lengths)

theorem length_mismatch_raises_witness:
  "missing_keys box_mismatch = [] \<and> 1 < card (set (explicit_batch_lengths box_mismatch)) \<and>
   getBHv_level2 zero_field box_mismatch =
     ([], Inl (MagpylibBadUserInput (Bad_array_input_lengths {3, 5})))"
proof -
  have c: "1 < card (set (explicit_batch_lengths box_mismatch))"
    by (simp add: box_mismatch_lengths)
  show ?thesis
    using length_mismatch_raises [OF box_mismatch_missing c, of zero_field]
    by (simp add: box_mismatch_lengths box_mismatch_missing)
qed

text \<open>
  The claim as stated fails on a call that has conflicting explicit lengths and also
  omits a mandatory key: the missing key is reported, not the lengths.
\<close>

theorem length_mismatch_counterexample:
  "1 < card (set (explicit_batch_lengths box_mismatch_without_magnetization)) \<and>
   getBHv_level2 zero_field box_mismatch_without_magnetization =
     ([], Inl (MagpylibBadUserInput (Missing_input_keys ''magnetization''))) \<and>
   getBHv_level2 zero_field box_mismatch_without_magnetization \<noteq>
     ([], Inl (MagpylibBadUserInput (Bad_array_input_lengths
        (set (explicit_batch_lengths box_mismatch_without_magnetization)))))"
proof -
  have l: "explicit_batch_lengths box_mismatch_without_magnetization = [3, 5]"
    by (simp add: explicit_batch_lengths_def explicit_batch_def declared_keys_def used_input_def
        box_mismatch_without_magnetization_def spec_required_parameters_def
        spec_declared_rank_def ndim_def len_def zeros_def np_array_def)
  have m: "missing_keys box_mismatch_without_magnetization = [''magnetization'']"
    by (simp add: missing_keys_def mandatory_keys_def has_key_def
        box_mismatch_without_magnetization_def spec_required_parameters_def)
  have "getBHv_level2 zero_field box_mismatch_without_magnetization =
      ([], Inl (MagpylibBadUserInput (Missing_input_keys ''magnetization'')))"
    using getBHv_level2_missing [of box_mismatch_without_magnetization zero_field] m by simp
  then show ?thesis by (simp add: l)
qed

subsection \<open>An unknown source type\<close>

lemma unknown_type_no_parameters:
  "st \<notin> set supported_source_types \<Longrightarrow> spec_required_parameters st = []"
  by (simp add: supported_source_types_def spec_required_parameters_def)

lemma unknown_type_not_missing:
  assumes "source_type kw = Some st" and "st \<notin> set supported_source_types"
      and "arrays kw ''observer'' = Some obs"
  shows "missing_keys kw = []"
  using assms unfolding missing_keys_Nil_iff by (simp add: unknown_type_no_parameters)

lemma level1_arguments_fields:
  "source_type (level1_arguments kw) = source_type kw"
  "squeeze (level1_arguments kw) = squeeze kw"
  "bh (level1_arguments kw) = bh kw"
  by (simp_all add: level1_arguments_def)

text \<open>
  C3, as amended. The wrapper has no check of \<^verbatim>\<open>source_type\<close>: for a tag that is not one
  of the six, with \<^verbatim>\<open>observer\<close> supplied and no conflict among the explicit lengths of
  observer, position and orientation, normalization completes, \<^verbatim>\<open>getBH_level1\<close> is called
  once with the tag unchanged, and the call returns what \<^verbatim>\<open>getBH_level1\<close> returns
  (squeezed if asked) or raises what it raises.
\<close>

theorem unknown_source_type_reaches_level1:
  fixes kw :: "('a::{zero,one}) kwargs"
  assumes "source_type kw = Some st" and "st \<notin> set supported_source_types"
      and "arrays kw ''observer'' = Some obs"
      and "card (set (explicit_batch_lengths kw)) \<le> 1"
  shows "\<exists>kw2. source_type kw2 = Some st \<and>
           getBHv_level2 getBH_level1 kw =
             ([kw2],
              (case getBH_level1 kw2 of
                 Inl e \<Rightarrow> Inl e
               | Inr B \<Rightarrow> Inr (if squeeze_flag kw then np_squeeze B else B)))"
proof -
  have "missing_keys kw = []"
    using assms(1-3) by (rule unknown_type_not_missing)
  from getBHv_level2_normal [OF this assms(4)] assms(1) show ?thesis
    by (intro exI [of _ "level1_arguments kw"]) (simp add: level1_arguments_fields)
qed

lemma cube_call_lengths: "explicit_batch_lengths cube_call = []"
  by (simp add: explicit_batch_lengths_def explicit_batch_def declared_keys_def used_input_def
      cube_call_def spec_required_parameters_def spec_declared_rank_def ndim_def np_array_def)

lemma cube_call_result:
  "getBHv_level2 zero_field cube_call =
     ([level1_arguments cube_call], Inr \<lparr>shape = [3], data = [0, 0, 0]\<rparr>)"
proof -
  have m: "missing_keys cube_call = []"
    by (rule unknown_type_not_missing [of _ "''Cube''" "np_array [1, 2, 3]"])
      (simp_all add: cube_call_def supported_source_types_def)
  have c: "card (set (explicit_batch_lengths cube_call)) \<le> 1"
    by (simp add: cube_call_lengths)
  have b: "batch_length cube_call = 1"
    by (simp add: batch_length_def cube_call_lengths)
  have u: "used_input cube_call ''observer'' = Some (np_array [1, 2, 3])"
    by (simp add: used_input_def cube_call_def)
  have d: "''observer'' \<in> set (declared_keys cube_call)"
    by (simp add: declared_keys_def)
  have o: "arrays (level1_arguments cube_call) ''observer'' = Some (np_tile (np_array [1, 2, 3]) 1)"
    using d by (simp add: level1_arguments_def b u tile_value_def spec_declared_rank_def
        ndim_def np_array_def)
  have z: "zero_field (level1_arguments cube_call) = Inr \<lparr>shape = [1, 3], data = [0, 0, 0]\<rparr>"
    by (simp add: zero_field_def o np_tile_def np_array_def len_def numeral_3_eq_3)
  have s: "squeeze_flag cube_call"
    by (simp add: squeeze_flag_def cube_call_def)
  show ?thesis
    unfolding getBHv_level2_normal [OF m c] z using s by (simp add: np_squeeze_def)
qed

theorem unknown_source_type_reaches_level1_witness:
  "source_type cube_call = Some ''Cube'' \<and> ''Cube'' \<notin> set supported_source_types \<and>
   arrays cube_call ''observer'' = Some (np_array [1, 2, 3]) \<and>
   card (set (explicit_batch_lengths cube_call)) \<le> 1 \<and>
   (\<exists>kw2. source_type kw2 = Some ''Cube'' \<and>
      getBHv_level2 zero_field cube_call =
        ([kw2],
         (case zero_field kw2 of
            Inl e \<Rightarrow> Inl e
          | Inr B \<Rightarrow> Inr (if squeeze_flag cube_call then np_squeeze B else B))))"
proof -
  have 1: "source_type cube_call = Some ''Cube''"
    by (simp add: cube_call_def)
  have 2: "''Cube'' \<notin> set supported_source_types"
    by (simp add: supported_source_types_def)
  have 3: "arrays cube_call ''observer'' = Some (np_array [1, 2, 3])"
    by (simp add: cube_call_def)
  have 4: "card (set (explicit_batch_lengths cube_call)) \<le> 1"
    by (simp add: cube_call_lengths)
  from unknown_source_type_reaches_level1 [OF 1 2 3 4, of zero_field] 1 2 3 4
  show ?thesis by blast
qed

text \<open>
  The claim as stated fails: with an unknown tag the call raises nothing during
  normalization, the kernel is invoked, and with a kernel that accepts the tag the call
  returns a field.
\<close>

theorem unknown_source_type_counterexample:
  "''Cube'' \<notin> set supported_source_types \<and> source_type cube_call = Some ''Cube'' \<and>
   length (fst (getBHv_level2 zero_field cube_call)) = 1 \<and>
   snd (getBHv_level2 zero_field cube_call) = Inr \<lparr>shape = [3], data = [0, 0, 0]\<rparr>"
  by (simp add: cube_call_result supported_source_types_def) (simp add: cube_call_def)

subsection \<open>Inputs of a rank above the declared one\<close>

lemma tile_params_of_Inr:
  fixes kw :: "('a::{zero,one}) kwargs"
  assumes "tile_params_of kw = Inr (tp, sq)"
  shows "missing_keys kw = []"
proof (rule ccontr)
  assume "missing_keys kw \<noteq> []"
  then have "getBHv_level2 (\<lambda>_. Inl Raised_in_level1) kw =
      ([], Inl (MagpylibBadUserInput (Missing_input_keys (hd (missing_keys kw)))))"
    by (rule getBHv_level2_missing)
  with assms show False
    by (simp add: getBHv_level2_def Let_def split: if_splits)
qed

lemma tile_params_tdim:
  fixes kw :: "('a::{zero,one}) kwargs"
  assumes "tile_params_of kw = Inr (tp, sq)" and "(key, val, tdim) \<in> set tp"
  shows "tdim = 1 \<or> tdim = 2"
proof -
  have "missing_keys kw = []"
    using assms(1) by (rule tile_params_of_Inr)
  from tile_params_of_spec [OF this] assms show ?thesis
    using spec_declared_rank_cases by auto
qed

lemma explicit_lengths_filter:
  assumes "\<forall>(k, v, t) \<in> set tp. \<not> P (k, v, t) \<longrightarrow> ndim v \<noteq> t"
  shows "explicit_lengths (filter P tp) = explicit_lengths tp"
  using assms by (induction tp) (auto simp: explicit_lengths_def)

lemma tile_value_pass: "\<not> ndim val < tdim \<Longrightarrow> tile_value n val tdim = val"
  by (simp add: tile_value_def)

lemma level1_arguments_declared:
  "key \<in> set (declared_keys kw) \<Longrightarrow>
     arrays (level1_arguments kw) key =
       Some (tile_value (batch_length kw) (the (used_input kw key)) (spec_declared_rank key))"
  by (simp add: level1_arguments_def)

text \<open>
  C9. An entry of \<^verbatim>\<open>tile_params\<close> whose array has a rank above its \<^verbatim>\<open>tdim\<close> contributes
  nothing to \<^verbatim>\<open>ns\<close> (dropping the entry leaves \<^verbatim>\<open>ns\<close> as it is), and when the remaining
  lengths do not conflict the call reaches \<^verbatim>\<open>getBH_level1\<close> with that array stored under
  its key unchanged: no error is raised for its shape.
\<close>

theorem higher_rank_passed_through:
  fixes kw :: "('a::{zero,one}) kwargs"
  assumes "tile_params_of kw = Inr (tile_params, sq)"
      and "(key, val, tdim) \<in> set tile_params" and "tdim < ndim val"
  shows "explicit_lengths tile_params =
           explicit_lengths (filter (\<lambda>e. fst e \<noteq> key) tile_params) \<and>
         (card (set (explicit_lengths tile_params)) \<le> 1 \<longrightarrow>
            (\<exists>kw2. fst (getBHv_level2 getBH_level1 kw) = [kw2] \<and> arrays kw2 key = Some val))"
proof -
  let ?tp = "map (\<lambda>key. (key, the (used_input kw key), spec_declared_rank key)) (declared_keys kw)"
  have m: "missing_keys kw = []"
    using assms(1) by (rule tile_params_of_Inr)
  from tile_params_of_spec [OF m] assms(1) have tp: "tile_params = ?tp"
    by simp
  with assms(2) have key: "key \<in> set (declared_keys kw)"
    and val: "val = the (used_input kw key)" and tdim: "tdim = spec_declared_rank key"
    by auto
  have "\<forall>(k, v, t) \<in> set tile_params. \<not> k \<noteq> key \<longrightarrow> ndim v \<noteq> t"
    unfolding tp using assms(3) val tdim by auto
  then have 1: "explicit_lengths (filter (\<lambda>e. fst e \<noteq> key) tile_params) =
                  explicit_lengths tile_params"
    by (intro explicit_lengths_filter) auto
  have 2: "\<exists>kw2. fst (getBHv_level2 getBH_level1 kw) = [kw2] \<and> arrays kw2 key = Some val"
    if "card (set (explicit_lengths tile_params)) \<le> 1"
  proof -
    from that have "card (set (explicit_batch_lengths kw)) \<le> 1"
      unfolding tp explicit_lengths_declared [OF m] .
    from getBHv_level2_normal [OF m this, of getBH_level1]
    have "fst (getBHv_level2 getBH_level1 kw) = [level1_arguments kw]"
      by simp
    moreover have "arrays (level1_arguments kw) key = Some val"
      using assms(3) by (simp add: level1_arguments_declared [OF key] val tdim tile_value_pass)
    ultimately show ?thesis by blast
  qed
  from 1 2 show ?thesis by simp
qed

lemma dipole_rank3_tile_params:
  "tile_params_of dipole_rank3_observer =
     Inr ([(''observer'', zeros [2, 5, 3], 2), (''position'', np_array [0, 0, 0], 2),
           (''orientation'', np_array [0, 0, 0, 1], 2), (''moment'', np_array [0, 0, 1], 2)],
          True)"
  by (simp add: tile_params_of_def dipole_rank3_observer_def class_specific_def from_quat_def
      as_quat_def)

theorem higher_rank_passed_through_witness:
  "tile_params_of dipole_rank3_observer =
     Inr ([(''observer'', zeros [2, 5, 3], 2), (''position'', np_array [0, 0, 0], 2),
           (''orientation'', np_array [0, 0, 0, 1], 2), (''moment'', np_array [0, 0, 1], 2)],
          True) \<and>
   2 < ndim (zeros [2, 5, 3] :: real ndarray) \<and>
   explicit_lengths [(''observer'', zeros [2, 5, 3], 2), (''position'', np_array [0, 0, 0], 2),
     (''orientation'', np_array [0, 0, 0, 1], 2), (''moment'', np_array [0, 0, 1 :: real], 2)] = [] \<and>
   (\<exists>kw2. fst (getBHv_level2 zero_field dipole_rank3_observer) = [kw2] \<and>
      arrays kw2 ''observer'' = Some (zeros [2, 5, 3]))"
proof -
  let ?tp = "[(''observer'', zeros [2, 5, 3], 2), (''position'', np_array [0, 0, 0], 2),
     (''orientation'', np_array [0, 0, 0, 1], 2), (''moment'', np_array [0, 0, 1 :: real], 2)]"
  have r: "2 < ndim (zeros [2, 5, 3] :: real ndarray)"
    by (simp add: ndim_def zeros_def)
  have e: "(''observer'', zeros [2, 5, 3], 2) \<in> set ?tp"
    by simp
  have l: "explicit_lengths ?tp = []"
    by (simp add: explicit_lengths_def ndim_def zeros_def np_array_def)
  from higher_rank_passed_through [OF dipole_rank3_tile_params e r, of zero_field]
    dipole_rank3_tile_params r l
  show ?thesis by simp
qed

subsection \<open>Tiling to the batch length\<close>

lemma block_of_replicate:
  "i < n \<Longrightarrow> take (length d) (drop (i * length d) (concat (replicate n d))) = d"
proof (induction i arbitrary: n)
  case 0
  then obtain m where "n = Suc m" by (cases n) auto
  then show ?case by simp
next
  case (Suc i)
  then obtain m where n: "n = Suc m" and "i < m" by (cases n) auto
  from Suc.IH [OF \<open>i < m\<close>] show ?case
    unfolding n by (simp add: add.commute)
qed

lemma row_repeat:
  assumes "well_formed val" and "i < n"
  shows "row \<lparr>shape = n # shape val, data = concat (replicate n (data val))\<rparr> i = val"
  using assms block_of_replicate [of i n "data val"]
  by (simp add: row_def well_formed_def)

lemma fold_max_same: "set xs \<subseteq> {x} \<Longrightarrow> fold max xs (x::nat) = x"
  by (induction xs) simp_all

lemma max_default_shared:
  assumes "card (set ns) \<le> 1" and "n \<in> set ns"
  shows "max_default ns d = n"
proof -
  from assms(2) have "set ns \<noteq> {}" by auto
  with assms(1) have "card (set ns) = 1"
    by (metis List.finite_set card_0_eq le_less less_one)
  then obtain x where x: "set ns = {x}"
    by (auto simp: card_1_singleton_iff)
  with assms(2) have nx: "n = x" by simp
  from x obtain y ys where ns: "ns = y # ys" by (cases ns) auto
  with x have "y = x" "set ys \<subseteq> {x}" by auto
  then show ?thesis
    unfolding ns nx by (simp add: fold_max_same)
qed

lemma explicit_length_member:
  assumes "key \<in> set (declared_keys kw)" and "used_input kw key = Some val"
      and "ndim val = spec_declared_rank key"
  shows "len val \<in> set (explicit_batch_lengths kw)"
  using assms by (auto simp: explicit_batch_lengths_def explicit_batch_def image_iff
      intro!: bexI [of _ key])

lemma len_tile_value:
  assumes "ndim val < tdim" and "tdim = 1 \<or> tdim = 2"
  shows "len (tile_value n val tdim) = n"
  using assms by (auto simp: tile_value_def len_def np_tile_def np_array_repeat_def)

lemma shape_tile_value:
  assumes "Suc (ndim val) = tdim" and "tdim = 1 \<or> tdim = 2"
  shows "tile_value n val tdim =
           \<lparr>shape = n # shape val, data = concat (replicate n (data val))\<rparr>"
proof -
  from assms consider "tdim = 1" "shape val = []" | k where "tdim = 2" "shape val = [k]"
    by (cases "shape val"; cases "tl (shape val)") (auto simp: ndim_def)
  then show ?thesis
    by cases (simp_all add: tile_value_def ndim_def np_tile_def np_array_repeat_def)
qed

text \<open>
  C2, as amended. For a call that supplies every mandatory key and whose explicit
  batches all share one length, \<open>N\<close> is that length, or 1 when there is no explicit batch.
  Every declared input whose rank does not exceed its declared rank reaches
  \<^verbatim>\<open>getBH_level1\<close> with exactly \<open>N\<close> leading entries; an input at its declared rank is
  unchanged; an input one rank below has one more leading axis of length \<open>N\<close>, and each
  of its \<open>N\<close> rows is the supplied instance.
\<close>

theorem tiled_to_batch_length:
  fixes kw :: "('a::{zero,one}) kwargs"
  assumes "missing_keys kw = []" and "card (set (explicit_batch_lengths kw)) \<le> 1"
      and "key \<in> set (declared_keys kw)" and "used_input kw key = Some val"
      and "ndim val \<le> spec_declared_rank key"
  shows "(\<forall>n \<in> set (explicit_batch_lengths kw). n = batch_length kw) \<and>
         (explicit_batch_lengths kw = [] \<longrightarrow> batch_length kw = 1) \<and>
         (\<exists>kw2 out. fst (getBHv_level2 getBH_level1 kw) = [kw2] \<and>
            arrays kw2 key = Some out \<and> len out = batch_length kw \<and>
            (ndim val = spec_declared_rank key \<longrightarrow> out = val) \<and>
            (Suc (ndim val) = spec_declared_rank key \<longrightarrow>
               shape out = batch_length kw # shape val \<and>
               (well_formed val \<longrightarrow> (\<forall>i < batch_length kw. row out i = val))))"
proof -
  let ?N = "batch_length kw" and ?r = "spec_declared_rank key"
  let ?out = "tile_value ?N val ?r"
  have shared: "\<forall>n \<in> set (explicit_batch_lengths kw). n = ?N"
    using max_default_shared [OF assms(2)] by (simp add: batch_length_def)
  have none: "explicit_batch_lengths kw = [] \<longrightarrow> ?N = 1"
    by (simp add: batch_length_def)
  have call: "fst (getBHv_level2 getBH_level1 kw) = [level1_arguments kw]"
    using getBHv_level2_normal [OF assms(1,2), of getBH_level1] by simp
  have out: "arrays (level1_arguments kw) key = Some ?out"
    using assms(4) by (simp add: level1_arguments_declared [OF assms(3)])
  have r: "?r = 1 \<or> ?r = 2"
    by (rule spec_declared_rank_cases)
  have same: "?out = val" if "ndim val = ?r"
    using that by (simp add: tile_value_pass)
  have len: "len ?out = ?N"
  proof (cases "ndim val = ?r")
    case True
    with explicit_length_member [OF assms(3,4)] shared same show ?thesis by simp
  next
    case False
    with assms(5) have "ndim val < ?r" by simp
    then show ?thesis using r by (rule len_tile_value)
  qed
  have below: "shape ?out = ?N # shape val \<and>
      (well_formed val \<longrightarrow> (\<forall>i < ?N. row ?out i = val))"
    if "Suc (ndim val) = ?r"
    using shape_tile_value [OF that r, of ?N] by (simp add: row_repeat)
  from shared none call out len same below show ?thesis
    by blast
qed

lemma sphere_batch_missing: "missing_keys sphere_batch = []"
  by (simp add: missing_keys_def mandatory_keys_def has_key_def sphere_batch_def
      spec_required_parameters_def)

lemma sphere_batch_lengths: "explicit_batch_lengths sphere_batch = [4]"
  by (simp add: explicit_batch_lengths_def explicit_batch_def declared_keys_def used_input_def
      sphere_batch_def spec_required_parameters_def spec_declared_rank_def ndim_def len_def
      zeros_def np_array_def)

theorem tiled_to_batch_length_witness:
  "missing_keys sphere_batch = [] \<and> card (set (explicit_batch_lengths sphere_batch)) \<le> 1 \<and>
   ''magnetization'' \<in> set (declared_keys sphere_batch) \<and>
   used_input sphere_batch ''magnetization'' = Some (np_array [0, 0, 1000]) \<and>
   ndim (np_array [0, 0, 1000 :: real]) \<le> spec_declared_rank ''magnetization'' \<and>
   batch_length sphere_batch = 4 \<and>
   (\<exists>kw2 out. fst (getBHv_level2 zero_field sphere_batch) = [kw2] \<and>
      arrays kw2 ''magnetization'' = Some out \<and> len out = 4 \<and> shape out = [4, 3] \<and>
      row out 2 = np_array [0, 0, 1000])"
proof -
  let ?val = "np_array [0, 0, 1000 :: real]"
  have c: "card (set (explicit_batch_lengths sphere_batch)) \<le> 1"
    by (simp add: sphere_batch_lengths)
  have k: "''magnetization'' \<in> set (declared_keys sphere_batch)"
    by (simp add: declared_keys_def sphere_batch_def spec_required_parameters_def)
  have u: "used_input sphere_batch ''magnetization'' = Some ?val"
    by (simp add: used_input_def sphere_batch_def)
  have r: "ndim ?val \<le> spec_declared_rank ''magnetization''"
    by (simp add: ndim_def np_array_def spec_declared_rank_def)
  have b: "batch_length sphere_batch = 4"
    by (simp add: batch_length_def sphere_batch_lengths)
  have s: "Suc (ndim ?val) = spec_declared_rank ''magnetization''"
    by (simp add: ndim_def np_array_def spec_declared_rank_def)
  have w: "well_formed ?val"
    by (simp add: well_formed_def np_array_def)
  have sh: "shape ?val = [3]"
    by (simp add: np_array_def)
  from tiled_to_batch_length [OF sphere_batch_missing c k u r, of zero_field]
  obtain kw2 out where "fst (getBHv_level2 zero_field sphere_batch) = [kw2]"
    and "arrays kw2 ''magnetization'' = Some out" and "len out = 4"
    and "shape out = [4, 3]" and "\<forall>i < 4. row out i = ?val"
    unfolding b using s w sh by auto
  then have "\<exists>kw2 out. fst (getBHv_level2 zero_field sphere_batch) = [kw2] \<and>
      arrays kw2 ''magnetization'' = Some out \<and> len out = 4 \<and> shape out = [4, 3] \<and>
      row out 2 = ?val"
    by auto
  with sphere_batch_missing c k u r b show ?thesis
    by blast
qed

text \<open>
  The claim as stated fails for an input whose rank is above its declared rank: here
  there is no explicit batch, so \<open>N = 1\<close>, and the observer reaches \<^verbatim>\<open>getBH_level1\<close> with
  two leading entries.
\<close>

theorem tiled_to_batch_length_counterexample:
  "missing_keys dipole_rank3_observer = [] \<and>
   explicit_batch_lengths dipole_rank3_observer = [] \<and>
   batch_length dipole_rank3_observer = 1 \<and>
   ''observer'' \<in> set (declared_keys dipole_rank3_observer) \<and>
   map (\<lambda>kw2. map_option len (arrays kw2 ''observer''))
     (fst (getBHv_level2 zero_field dipole_rank3_observer)) = [Some 2]"
proof -
  have m: "missing_keys dipole_rank3_observer = []"
    by (simp add: missing_keys_def mandatory_keys_def has_key_def dipole_rank3_observer_def
        spec_required_parameters_def)
  have l: "explicit_batch_lengths dipole_rank3_observer = []"
    by (simp add: explicit_batch_lengths_def explicit_batch_def declared_keys_def
        used_input_def dipole_rank3_observer_def spec_required_parameters_def
        spec_declared_rank_def ndim_def zeros_def np_array_def)
  have b: "batch_length dipole_rank3_observer = 1"
    by (simp add: batch_length_def l)
  have k: "''observer'' \<in> set (declared_keys dipole_rank3_observer)"
    by (simp add: declared_keys_def)
  have u: "used_input dipole_rank3_observer ''observer'' = Some (zeros [2, 5, 3])"
    by (simp add: used_input_def dipole_rank3_observer_def)
  have c: "card (set (explicit_batch_lengths dipole_rank3_observer)) \<le> 1"
    by (simp add: l)
  have "\<not> ndim (zeros [2, 5, 3] :: real ndarray) < spec_declared_rank ''observer''"
    by (simp add: ndim_def zeros_def spec_declared_rank_def)
  then have "arrays (level1_arguments dipole_rank3_observer) ''observer'' = Some (zeros [2, 5, 3])"
    by (simp add: level1_arguments_declared [OF k] u tile_value_pass)
  moreover have "len (zeros [2, 5, 3] :: real ndarray) = 2"
    by (simp add: len_def zeros_def)
  ultimately have "map (\<lambda>kw2. map_option len (arrays kw2 ''observer''))
     (fst (getBHv_level2 zero_field dipole_rank3_observer)) = [Some 2]"
    using getBHv_level2_normal [OF m c, of zero_field] by simp
  with m l b k show ?thesis by blast
qed

subsection \<open>The defaults of position and orientation\<close>

lemma general_key_not_required:
  "key = ''position'' \<or> key = ''orientation'' \<Longrightarrow> key \<notin> set (spec_required_parameters st)"
  using spec_required_not_general [of key st] by blast

lemma call_with_default_used_input:
  fixes kw :: "('a::{zero,one}) kwargs"
  assumes "used_input kw key = Some d" and "arrays kw key = None"
  shows "used_input (call_with kw key d) = used_input kw"
proof
  fix k
  show "used_input (call_with kw key d) k = used_input kw k"
    using assms by (cases "k = key") (simp_all add: used_input_def call_with_def)
qed

lemma call_with_fields:
  "source_type (call_with kw key d) = source_type kw"
  "squeeze (call_with kw key d) = squeeze kw"
  "bh (call_with kw key d) = bh kw"
  by (simp_all add: call_with_def)

lemma call_with_declared_keys: "declared_keys (call_with kw key d) = declared_keys kw"
  by (simp add: declared_keys_def call_with_fields)

lemma call_with_mandatory_keys: "mandatory_keys (call_with kw key d) = mandatory_keys kw"
  by (simp add: mandatory_keys_def call_with_fields)

lemma call_with_has_key:
  assumes "key = ''position'' \<or> key = ''orientation''" and "k \<in> set (mandatory_keys kw)"
  shows "has_key (call_with kw key d) k = has_key kw k"
proof -
  from assms(2) have "k = ''source_type'' \<or> k = ''observer'' \<or>
      (\<exists>st. k \<in> set (spec_required_parameters st))"
    by (auto simp: mandatory_keys_def split: option.splits)
  with assms(1) have "k \<noteq> key"
    using general_key_not_required by auto
  then show ?thesis
    by (simp add: has_key_def call_with_def)
qed

lemma call_with_missing_keys:
  assumes "key = ''position'' \<or> key = ''orientation''"
  shows "missing_keys (call_with kw key d) = missing_keys kw"
  unfolding missing_keys_def call_with_mandatory_keys
  by (rule filter_cong [OF refl]) (simp add: call_with_has_key [OF assms])

lemma call_with_explicit_batch_lengths:
  fixes kw :: "('a::{zero,one}) kwargs"
  assumes "used_input kw key = Some d" and "arrays kw key = None"
  shows "explicit_batch_lengths (call_with kw key d) = explicit_batch_lengths kw"
proof -
  have "explicit_batch (call_with kw key d) = explicit_batch kw"
    by (rule ext) (simp add: explicit_batch_def call_with_default_used_input [OF assms])
  then show ?thesis
    by (simp add: explicit_batch_lengths_def call_with_declared_keys
        call_with_default_used_input [OF assms])
qed

lemma call_with_level1_arguments:
  fixes kw :: "('a::{zero,one}) kwargs"
  assumes "used_input kw key = Some d" and "arrays kw key = None"
      and "key \<in> set (declared_keys kw)"
  shows "level1_arguments (call_with kw key d) = level1_arguments kw"
proof -
  have b: "batch_length (call_with kw key d) = batch_length kw"
    by (simp add: batch_length_def call_with_explicit_batch_lengths [OF assms(1,2)])
  have "(\<lambda>k. if k \<in> set (declared_keys kw)
              then Some (tile_value (batch_length kw) (the (used_input kw k))
                     (spec_declared_rank k))
              else arrays (call_with kw key d) k) =
        (\<lambda>k. if k \<in> set (declared_keys kw)
              then Some (tile_value (batch_length kw) (the (used_input kw k))
                     (spec_declared_rank k))
              else arrays kw k)"
    using assms(3) by (auto simp: call_with_def)
  then show ?thesis
    unfolding level1_arguments_def call_with_declared_keys b
      call_with_default_used_input [OF assms(1,2)]
    by (simp add: call_with_def)
qed

lemma call_with_squeeze_flag: "squeeze_flag (call_with kw key d) = squeeze_flag kw"
  by (simp add: squeeze_flag_def call_with_fields)

lemma call_with_default_same:
  fixes kw :: "('a::{zero,one}) kwargs"
  assumes "key = ''position'' \<or> key = ''orientation''"
      and "used_input kw key = Some d" and "arrays kw key = None"
  shows "getBHv_level2 getBH_level1 (call_with kw key d) = getBHv_level2 getBH_level1 kw"
proof -
  have k: "key \<in> set (declared_keys kw)"
    using assms(1) by (auto simp: declared_keys_def)
  note m = call_with_missing_keys [OF assms(1), of kw d]
  note l = call_with_explicit_batch_lengths [OF assms(2,3)]
  consider "missing_keys kw \<noteq> []"
    | "missing_keys kw = []" "1 < card (set (explicit_batch_lengths kw))"
    | "missing_keys kw = []" "card (set (explicit_batch_lengths kw)) \<le> 1"
    by linarith
  then show ?thesis
  proof cases
    case 1
    then show ?thesis
      using getBHv_level2_missing [of kw getBH_level1]
        getBHv_level2_missing [of "call_with kw key d" getBH_level1]
      by (simp add: m)
  next
    case 2
    then show ?thesis
      using getBHv_level2_bad_lengths [of kw getBH_level1]
        getBHv_level2_bad_lengths [of "call_with kw key d" getBH_level1]
      by (simp add: m l)
  next
    case 3
    then show ?thesis
      using getBHv_level2_normal [of kw getBH_level1]
        getBHv_level2_normal [of "call_with kw key d" getBH_level1]
      by (simp add: m l call_with_level1_arguments [OF assms(2,3) k] call_with_squeeze_flag
          cong: sum.case_cong)
  qed
qed

lemma general_keys_declared:
  "''position'' \<in> set (declared_keys kw)" "''orientation'' \<in> set (declared_keys kw)"
  by (simp_all add: declared_keys_def)

lemma level1_position:
  fixes kw :: "('a::{zero,one}) kwargs"
  shows "arrays (level1_arguments kw) ''position'' =
     Some (case arrays kw ''position'' of
             None \<Rightarrow> \<lparr>shape = [batch_length kw, 3],
                       data = concat (replicate (batch_length kw) [0, 0, 0])\<rparr>
           | Some p \<Rightarrow> if ndim p < 2 then np_tile p (batch_length kw) else p)"
  by (cases "arrays kw ''position''")
    (simp_all add: level1_arguments_declared [OF general_keys_declared(1)] used_input_def
      tile_value_def spec_declared_rank_def ndim_def np_array_def np_tile_def)

lemma level1_orientation:
  fixes kw :: "('a::{zero,one}) kwargs"
  shows "arrays (level1_arguments kw) ''orientation'' =
     Some (case arrays kw ''orientation'' of
             None \<Rightarrow> \<lparr>shape = [batch_length kw, 4],
                       data = concat (replicate (batch_length kw) [0, 0, 0, 1])\<rparr>
           | Some r \<Rightarrow> if ndim r < 2 then np_tile r (batch_length kw) else r)"
  by (cases "arrays kw ''orientation''")
    (simp_all add: level1_arguments_declared [OF general_keys_declared(2)] used_input_def
      tile_value_def spec_declared_rank_def ndim_def np_array_def np_tile_def)

text \<open>
  C6. A call without \<^verbatim>\<open>position\<close> behaves exactly as the same call with
  \<^verbatim>\<open>position=(0,0,0)\<close>, and a call without \<^verbatim>\<open>orientation\<close> exactly as the same call with
  the rotation of quaternion \<^verbatim>\<open>(0,0,0,1)\<close>. When the call reaches \<^verbatim>\<open>getBH_level1\<close> with
  batch length \<open>N\<close>, an absent position arrives as \<open>N\<close> rows \<^verbatim>\<open>(0,0,0)\<close> and an absent
  orientation as \<open>N\<close> rows \<^verbatim>\<open>(0,0,0,1)\<close>; a supplied one arrives in their place, tiled if it
  is a single instance and as it is otherwise.
\<close>

theorem absent_position_orientation_default:
  fixes kw :: "('a::{zero,one}) kwargs"
  shows "(arrays kw ''position'' = None \<longrightarrow>
            getBHv_level2 getBH_level1 (call_with kw ''position'' (np_array [0, 0, 0])) =
            getBHv_level2 getBH_level1 kw) \<and>
         (arrays kw ''orientation'' = None \<longrightarrow>
            getBHv_level2 getBH_level1
              (call_with kw ''orientation'' (from_quat (np_array [0, 0, 0, 1]))) =
            getBHv_level2 getBH_level1 kw) \<and>
         (missing_keys kw = [] \<and> card (set (explicit_batch_lengths kw)) \<le> 1 \<longrightarrow>
            (\<exists>kw2. fst (getBHv_level2 getBH_level1 kw) = [kw2] \<and>
               arrays kw2 ''position'' =
                 Some (case arrays kw ''position'' of
                         None \<Rightarrow> \<lparr>shape = [batch_length kw, 3],
                                   data = concat (replicate (batch_length kw) [0, 0, 0])\<rparr>
                       | Some p \<Rightarrow> if ndim p < 2 then np_tile p (batch_length kw) else p) \<and>
               arrays kw2 ''orientation'' =
                 Some (case arrays kw ''orientation'' of
                         None \<Rightarrow> \<lparr>shape = [batch_length kw, 4],
                                   data = concat (replicate (batch_length kw) [0, 0, 0, 1])\<rparr>
                       | Some r \<Rightarrow> if ndim r < 2 then np_tile r (batch_length kw) else r)))"
proof (intro conjI impI)
  assume a: "arrays kw ''position'' = None"
  then have "used_input kw ''position'' = Some (np_array [0, 0, 0])"
    by (simp add: used_input_def)
  then show "getBHv_level2 getBH_level1 (call_with kw ''position'' (np_array [0, 0, 0])) =
             getBHv_level2 getBH_level1 kw"
    using a by (intro call_with_default_same) simp_all
next
  assume a: "arrays kw ''orientation'' = None"
  then have "used_input kw ''orientation'' = Some (from_quat (np_array [0, 0, 0, 1]))"
    by (simp add: used_input_def from_quat_def)
  then show "getBHv_level2 getBH_level1
               (call_with kw ''orientation'' (from_quat (np_array [0, 0, 0, 1]))) =
             getBHv_level2 getBH_level1 kw"
    using a by (intro call_with_default_same) simp_all
next
  assume "missing_keys kw = [] \<and> card (set (explicit_batch_lengths kw)) \<le> 1"
  then have "fst (getBHv_level2 getBH_level1 kw) = [level1_arguments kw]"
    using getBHv_level2_normal [of kw getBH_level1] by simp
  with level1_position [of kw] level1_orientation [of kw]
  show "\<exists>kw2. fst (getBHv_level2 getBH_level1 kw) = [kw2] \<and>
               arrays kw2 ''position'' =
                 Some (case arrays kw ''position'' of
                         None \<Rightarrow> \<lparr>shape = [batch_length kw, 3],
                                   data = concat (replicate (batch_length kw) [0, 0, 0])\<rparr>
                       | Some p \<Rightarrow> if ndim p < 2 then np_tile p (batch_length kw) else p) \<and>
               arrays kw2 ''orientation'' =
                 Some (case arrays kw ''orientation'' of
                         None \<Rightarrow> \<lparr>shape = [batch_length kw, 4],
                                   data = concat (replicate (batch_length kw) [0, 0, 0, 1])\<rparr>
                       | Some r \<Rightarrow> if ndim r < 2 then np_tile r (batch_length kw) else r)"
    by blast
qed

lemma dipole_batch_missing: "missing_keys dipole_batch = []"
  by (simp add: missing_keys_def mandatory_keys_def has_key_def dipole_batch_def
      spec_required_parameters_def)

lemma dipole_batch_lengths: "explicit_batch_lengths dipole_batch = [4]"
  by (simp add: explicit_batch_lengths_def explicit_batch_def declared_keys_def used_input_def
      dipole_batch_def spec_required_parameters_def spec_declared_rank_def ndim_def len_def
      zeros_def np_array_def)

theorem absent_position_orientation_default_witness:
  "arrays dipole_batch ''position'' = None \<and> arrays dipole_batch ''orientation'' = None \<and>
   missing_keys dipole_batch = [] \<and> card (set (explicit_batch_lengths dipole_batch)) \<le> 1 \<and>
   getBHv_level2 zero_field (call_with dipole_batch ''position'' (np_array [0, 0, 0])) =
     getBHv_level2 zero_field dipole_batch \<and>
   getBHv_level2 zero_field
       (call_with dipole_batch ''orientation'' (from_quat (np_array [0, 0, 0, 1]))) =
     getBHv_level2 zero_field dipole_batch \<and>
   (\<exists>kw2. fst (getBHv_level2 zero_field dipole_batch) = [kw2] \<and>
      arrays kw2 ''position'' =
        Some \<lparr>shape = [4, 3], data = [0, 0, 0, 0, 0, 0, 0, 0, 0, 0, 0, 0]\<rparr> \<and>
      arrays kw2 ''orientation'' =
        Some \<lparr>shape = [4, 4], data = [0, 0, 0, 1, 0, 0, 0, 1, 0, 0, 0, 1, 0, 0, 0, 1]\<rparr>)"
proof -
  have p: "arrays dipole_batch ''position'' = None"
    and o: "arrays dipole_batch ''orientation'' = None"
    by (simp_all add: dipole_batch_def)
  have c: "card (set (explicit_batch_lengths dipole_batch)) \<le> 1"
    by (simp add: dipole_batch_lengths)
  have b: "batch_length dipole_batch = 4"
    by (simp add: batch_length_def dipole_batch_lengths)
  have r: "replicate 4 x = [x, x, x, x]" for x :: "real list"
    by (simp add: numeral_eq_Suc)
  from absent_position_orientation_default [of dipole_batch zero_field] c
  show ?thesis
    unfolding b by (simp add: p o dipole_batch_missing r)
qed

subsection \<open>Squeezing\<close>

lemma mandatory_key_not_squeeze: "k \<in> set (mandatory_keys kw) \<Longrightarrow> k \<noteq> ''squeeze''"
proof -
  assume "k \<in> set (mandatory_keys kw)"
  then consider "k = ''source_type''" | "k = ''observer''"
    | st where "k \<in> set (spec_required_parameters st)"
    by (auto simp: mandatory_keys_def split: option.splits)
  then show ?thesis
  proof cases
    case 3
    then obtain t where "(k, t) \<in> set (class_specific st)"
      unfolding class_specific_keys [symmetric] by auto
    then show ?thesis using class_specific_entry by blast
  qed simp_all
qed

lemma squeeze_update_missing_keys: "missing_keys (kw\<lparr>squeeze := b\<rparr>) = missing_keys kw"
proof -
  have m: "mandatory_keys (kw\<lparr>squeeze := b\<rparr>) = mandatory_keys kw"
    by (simp add: mandatory_keys_def)
  show ?thesis
    unfolding missing_keys_def m
    by (rule filter_cong [OF refl]) (auto simp: has_key_def dest: mandatory_key_not_squeeze)
qed

lemma squeeze_update_used_input: "used_input (kw\<lparr>squeeze := b\<rparr>) = used_input kw"
  by (rule ext) (simp add: used_input_def)

lemma squeeze_update_declared_keys: "declared_keys (kw\<lparr>squeeze := b\<rparr>) = declared_keys kw"
  by (simp add: declared_keys_def)

lemma squeeze_update_lengths:
  "explicit_batch_lengths (kw\<lparr>squeeze := b\<rparr>) = explicit_batch_lengths kw"
proof -
  have "explicit_batch (kw\<lparr>squeeze := b\<rparr>) = explicit_batch kw"
    by (rule ext) (simp add: explicit_batch_def squeeze_update_used_input)
  then show ?thesis
    by (simp add: explicit_batch_lengths_def squeeze_update_used_input
        squeeze_update_declared_keys)
qed

lemma squeeze_update_level1_arguments:
  "level1_arguments (kw\<lparr>squeeze := b\<rparr>) = (level1_arguments kw)\<lparr>squeeze := b\<rparr>"
proof -
  have n: "batch_length (kw\<lparr>squeeze := b\<rparr>) = batch_length kw"
    by (simp add: batch_length_def squeeze_update_lengths)
  have a: "arrays (kw\<lparr>squeeze := b\<rparr>) = arrays kw"
    by simp
  show ?thesis
    unfolding level1_arguments_def squeeze_update_declared_keys squeeze_update_used_input n a
    by simp
qed

lemma squeeze_update_flag:
  "squeeze_flag (kw\<lparr>squeeze := b\<rparr>) = (case b of None \<Rightarrow> True | Some x \<Rightarrow> x)"
  by (simp add: squeeze_flag_def)

lemma getBHv_level2_squeeze_update:
  fixes kw :: "('a::{zero,one}) kwargs"
  assumes ignore: "\<And>a c. getBH_level1 (a\<lparr>squeeze := c\<rparr>) = getBH_level1 a"
      and unsq: "snd (getBHv_level2 getBH_level1 (kw\<lparr>squeeze := Some False\<rparr>)) = Inr B"
  shows "snd (getBHv_level2 getBH_level1 (kw\<lparr>squeeze := b\<rparr>)) =
           Inr (if (case b of None \<Rightarrow> True | Some x \<Rightarrow> x) then np_squeeze B else B)"
proof -
  have m: "missing_keys kw = []"
  proof (rule ccontr)
    assume "missing_keys kw \<noteq> []"
    then have "missing_keys (kw\<lparr>squeeze := Some False\<rparr>) \<noteq> []"
      by (simp add: squeeze_update_missing_keys)
    from getBHv_level2_missing [OF this, of getBH_level1] unsq show False by simp
  qed
  have c: "card (set (explicit_batch_lengths kw)) \<le> 1"
  proof (rule ccontr)
    assume "\<not> card (set (explicit_batch_lengths kw)) \<le> 1"
    then have "1 < card (set (explicit_batch_lengths (kw\<lparr>squeeze := Some False\<rparr>)))"
      by (simp add: squeeze_update_lengths)
    from getBHv_level2_bad_lengths [OF _ this, of getBH_level1] m unsq show False
      by (simp add: squeeze_update_missing_keys)
  qed
  have run: "snd (getBHv_level2 getBH_level1 (kw\<lparr>squeeze := b'\<rparr>)) =
      (case getBH_level1 (level1_arguments kw) of
         Inl e \<Rightarrow> Inl e
       | Inr B \<Rightarrow> Inr (if (case b' of None \<Rightarrow> True | Some x \<Rightarrow> x) then np_squeeze B else B))"
    for b'
    using getBHv_level2_normal [of "kw\<lparr>squeeze := b'\<rparr>" getBH_level1] m c
    by (simp add: squeeze_update_missing_keys squeeze_update_lengths
        squeeze_update_level1_arguments squeeze_update_flag ignore cong: sum.case_cong)
  from unsq have "getBH_level1 (level1_arguments kw) = Inr B"
    unfolding run [of "Some False"] by (simp split: sum.splits)
  then show ?thesis
    unfolding run [of b] by simp
qed

text \<open>
  C5. Let \<^verbatim>\<open>getBH_level1\<close> not read the \<^verbatim>\<open>squeeze\<close> key, and let the query with
  \<^verbatim>\<open>squeeze=False\<close> return the array \<open>B\<close>. Then the same query with \<^verbatim>\<open>squeeze=True\<close>, or
  without the key, returns \<open>B\<close> with every axis of length 1 removed and the same entries.
  For a single-instance query, where the batch length is 1 and \<open>B\<close> has the shape
  \<^verbatim>\<open>(N,3)\<close> of the kernel's contract, that is the 3-element vector of the entries of the
  \<^verbatim>\<open>(1,3)\<close> batch \<open>B\<close>.
\<close>

theorem squeeze_single_instance:
  fixes kw :: "('a::{zero,one}) kwargs"
  assumes "\<And>a c. getBH_level1 (a\<lparr>squeeze := c\<rparr>) = getBH_level1 a"
      and "snd (getBHv_level2 getBH_level1 (kw\<lparr>squeeze := Some False\<rparr>)) = Inr B"
  shows "snd (getBHv_level2 getBH_level1 (kw\<lparr>squeeze := Some True\<rparr>)) =
           Inr \<lparr>shape = filter (\<lambda>d. d \<noteq> 1) (shape B), data = data B\<rparr> \<and>
         snd (getBHv_level2 getBH_level1 (kw\<lparr>squeeze := None\<rparr>)) =
           Inr \<lparr>shape = filter (\<lambda>d. d \<noteq> 1) (shape B), data = data B\<rparr> \<and>
         (batch_length kw = 1 \<and> shape B = [batch_length kw, 3] \<longrightarrow>
            B = \<lparr>shape = [1, 3], data = data B\<rparr> \<and>
            snd (getBHv_level2 getBH_level1 (kw\<lparr>squeeze := Some True\<rparr>)) =
              Inr \<lparr>shape = [3], data = data B\<rparr> \<and>
            snd (getBHv_level2 getBH_level1 (kw\<lparr>squeeze := None\<rparr>)) =
              Inr \<lparr>shape = [3], data = data B\<rparr>)"
proof -
  have t: "snd (getBHv_level2 getBH_level1 (kw\<lparr>squeeze := Some True\<rparr>)) = Inr (np_squeeze B)"
    using getBHv_level2_squeeze_update [OF assms, of "Some True"] by simp
  have n: "snd (getBHv_level2 getBH_level1 (kw\<lparr>squeeze := None\<rparr>)) = Inr (np_squeeze B)"
    using getBHv_level2_squeeze_update [OF assms, of None] by simp
  have s: "np_squeeze B = \<lparr>shape = [3], data = data B\<rparr> \<and> B = \<lparr>shape = [1, 3], data = data B\<rparr>"
    if "shape B = [1, 3]"
    using that by (cases B) (simp add: np_squeeze_def)
  from t n s show ?thesis
    by (auto simp: np_squeeze_def)
qed

lemma dipole_single_missing: "missing_keys dipole_single = []"
  by (simp add: missing_keys_def mandatory_keys_def has_key_def dipole_single_def
      spec_required_parameters_def)

lemma dipole_single_lengths: "explicit_batch_lengths dipole_single = []"
  by (simp add: explicit_batch_lengths_def explicit_batch_def declared_keys_def used_input_def
      dipole_single_def spec_required_parameters_def spec_declared_rank_def ndim_def
      np_array_def)

lemma dipole_single_unsqueezed:
  "snd (getBHv_level2 echo_observer (dipole_single\<lparr>squeeze := Some False\<rparr>)) =
     Inr \<lparr>shape = [1, 3], data = [1, 0, 0]\<rparr>"
proof -
  let ?kw = "dipole_single\<lparr>squeeze := Some False\<rparr>"
  have m: "missing_keys ?kw = []"
    by (simp add: squeeze_update_missing_keys dipole_single_missing)
  have c: "card (set (explicit_batch_lengths ?kw)) \<le> 1"
    by (simp add: squeeze_update_lengths dipole_single_lengths)
  have b: "batch_length dipole_single = 1"
    by (simp add: batch_length_def dipole_single_lengths)
  have u: "used_input dipole_single ''observer'' = Some (np_array [1, 0, 0])"
    by (simp add: used_input_def dipole_single_def)
  have d: "''observer'' \<in> set (declared_keys dipole_single)"
    by (simp add: declared_keys_def)
  have "arrays (level1_arguments dipole_single) ''observer'' =
      Some (tile_value 1 (np_array [1, 0, 0]) 2)"
    by (simp add: level1_arguments_declared [OF d] b u spec_declared_rank_def)
  then have o: "arrays (level1_arguments ?kw) ''observer'' =
      Some \<lparr>shape = [1, 3], data = [1, 0, 0]\<rparr>"
    by (simp add: squeeze_update_level1_arguments tile_value_def ndim_def np_array_def
        np_tile_def)
  have f: "\<not> squeeze_flag ?kw"
    by (simp add: squeeze_update_flag)
  show ?thesis
    unfolding getBHv_level2_normal [OF m c] using f by (simp add: echo_observer_def o)
qed

theorem squeeze_single_instance_witness:
  "(\<forall>a c. echo_observer (a\<lparr>squeeze := c\<rparr>) = echo_observer a) \<and>
   snd (getBHv_level2 echo_observer (dipole_single\<lparr>squeeze := Some False\<rparr>)) =
     Inr \<lparr>shape = [1, 3], data = [1, 0, 0]\<rparr> \<and>
   batch_length dipole_single = 1 \<and>
   snd (getBHv_level2 echo_observer (dipole_single\<lparr>squeeze := Some True\<rparr>)) =
     Inr \<lparr>shape = [3], data = [1, 0, 0]\<rparr> \<and>
   snd (getBHv_level2 echo_observer (dipole_single\<lparr>squeeze := None\<rparr>)) =
     Inr \<lparr>shape = [3], data = [1, 0, 0]\<rparr>"
proof -
  have i: "echo_observer (a\<lparr>squeeze := c\<rparr>) = echo_observer a" for a c
    by (simp add: echo_observer_def)
  have b: "batch_length dipole_single = 1"
    by (simp add: batch_length_def dipole_single_lengths)
  from squeeze_single_instance [of echo_observer dipole_single, OF i dipole_single_unsqueezed]
  show ?thesis
    using i dipole_single_unsqueezed b by simp
qed

section \<open>Properties of the Collection\<close>

lemma check_duplicates_distinct: "distinct (check_duplicates xs)"
  by (simp add: check_duplicates_def)

lemma check_duplicates_set: "set (check_duplicates xs) = set xs"
  by (simp add: check_duplicates_def)

lemma sources_setter_invariant:
  "distinct (sources_setter h c srcs c) \<and>
   (\<forall>s \<in> set (sources_setter h c srcs c). object_type s \<in> set supported_source_types)"
  by (simp add: sources_setter_def only_allowed_src_types_def check_duplicates_distinct)

lemma add_distinct: "distinct (fst (add h c srcs) c)"
  by (simp add: add_def check_duplicates_distinct)

lemma add_set: "set (fst (add h c srcs) c) = set (h c) \<union> set (format_obj_input h srcs)"
  by (simp add: add_def check_duplicates_set)

text \<open>
  C8. The setter drops an object that is not of a supported source type; \<^verbatim>\<open>add\<close> (and
  with it \<^verbatim>\<open>+\<close>) does not call \<^verbatim>\<open>only_allowed_src_types\<close> and keeps it. After
  \<^verbatim>\<open>Collection().add(sensor)\<close> the Collection holds an object whose type is not supported,
  where \<^verbatim>\<open>Collection(sensor)\<close> is empty.
\<close>

theorem add_keeps_unsupported_type:
  "object_type a_sensor \<notin> set supported_source_types \<and>
   fst (Collection_init no_collections 0 [Object a_sensor]) 0 = [] \<and>
   fst (add (fst (Collection_init no_collections 0 [])) 0 [Object a_sensor]) 0 = [a_sensor] \<and>
   fst (dunder_add (fst (Collection_init no_collections 0 [])) 0 (Object a_sensor)) 0
     = [a_sensor]"
  by (simp add: a_sensor_def supported_source_types_def Collection_init_def sources_setter_def
      add_def dunder_add_def format_obj_input_def check_duplicates_def
      only_allowed_src_types_def no_collections_def)

lemma add_result:
  "add h c srcs = (h(c := check_duplicates (h c @ format_obj_input h srcs)), c)"
  by (simp add: add_def)

text \<open>
  C10, as amended. \<^verbatim>\<open>c.add(s)\<close> and \<^verbatim>\<open>c + s\<close> return the reference \<open>c\<close> itself, after
  which the sources of \<open>c\<close> contain \<open>s\<close> and every other Collection is as before. When
  \<open>s\<close> is among the sources of \<open>c\<close>, \<^verbatim>\<open>c - s\<close> returns \<open>c\<close> itself with the first
  occurrence of \<open>s\<close> removed from its sources (\<open>s\<close> is then gone when the sources had no
  duplicate), every other Collection as before; when \<open>s\<close> is not among them, \<^verbatim>\<open>c - s\<close>
  raises a ValueError.
\<close>

theorem add_sub_in_place:
  "(\<exists>h'. add h c [Object s] = (h', c) \<and> s \<in> set (h' c) \<and> (\<forall>a. a \<noteq> c \<longrightarrow> h' a = h a)) \<and>
   (\<exists>h'. dunder_add h c (Object s) = (h', c) \<and> s \<in> set (h' c) \<and>
      (\<forall>a. a \<noteq> c \<longrightarrow> h' a = h a)) \<and>
   (s \<in> set (h c) \<longrightarrow>
      (\<exists>h'. dunder_sub h c s = Inr (h', c) \<and> h' c = remove1 s (h c) \<and>
         (distinct (h c) \<longrightarrow> s \<notin> set (h' c)) \<and> (\<forall>a. a \<noteq> c \<longrightarrow> h' a = h a))) \<and>
   (s \<notin> set (h c) \<longrightarrow> dunder_sub h c s = Inl ValueError)"
proof (intro conjI impI)
  let ?h = "h(c := check_duplicates (h c @ format_obj_input h [Object s]))"
  have m: "s \<in> set (?h c)"
    by (simp add: check_duplicates_set format_obj_input_def)
  have o: "\<forall>a. a \<noteq> c \<longrightarrow> ?h a = h a"
    by simp
  show "\<exists>h'. add h c [Object s] = (h', c) \<and> s \<in> set (h' c) \<and> (\<forall>a. a \<noteq> c \<longrightarrow> h' a = h a)"
    using m o add_result [of h c "[Object s]"] by blast
  show "\<exists>h'. dunder_add h c (Object s) = (h', c) \<and> s \<in> set (h' c) \<and>
      (\<forall>a. a \<noteq> c \<longrightarrow> h' a = h a)"
    using m o by (intro exI [of _ ?h]) (simp add: dunder_add_def add_result)
next
  assume s: "s \<in> set (h c)"
  let ?h = "h(c := remove1 s (h c))"
  have "dunder_sub h c s = Inr (?h, c)"
    using s by (simp add: dunder_sub_def remove_source_def)
  moreover have "?h c = remove1 s (h c)" "\<forall>a. a \<noteq> c \<longrightarrow> ?h a = h a"
    by simp_all
  moreover have "distinct (h c) \<longrightarrow> s \<notin> set (?h c)"
    by simp
  ultimately show "\<exists>h'. dunder_sub h c s = Inr (h', c) \<and> h' c = remove1 s (h c) \<and>
         (distinct (h c) \<longrightarrow> s \<notin> set (h' c)) \<and> (\<forall>a. a \<noteq> c \<longrightarrow> h' a = h a)"
    by blast
next
  assume "s \<notin> set (h c)"
  then show "dunder_sub h c s = Inl ValueError"
    by (simp add: dunder_sub_def remove_source_def)
qed

lemma one_collection_sources: "one_collection 0 = [a_box]"
  by (simp add: one_collection_def Collection_init_def sources_setter_def format_obj_input_def
      check_duplicates_def only_allowed_src_types_def a_box_def supported_source_types_def)

theorem add_sub_in_place_witness:
  "a_box \<in> set (one_collection 0) \<and> a_sensor \<notin> set (one_collection 0) \<and>
   (\<exists>h'. dunder_add one_collection 0 (Object a_box) = (h', 0) \<and> a_box \<in> set (h' 0)) \<and>
   (\<exists>h'. dunder_sub one_collection 0 a_box = Inr (h', 0) \<and> h' 0 = []) \<and>
   dunder_sub one_collection 0 a_sensor = Inl ValueError"
proof -
  have i: "a_box \<in> set (one_collection 0)" and n: "a_sensor \<notin> set (one_collection 0)"
    by (simp_all add: one_collection_sources a_box_def a_sensor_def)
  from add_sub_in_place [of one_collection 0 a_box] i
  have "\<exists>h'. dunder_add one_collection 0 (Object a_box) = (h', 0) \<and> a_box \<in> set (h' 0)"
    and "\<exists>h'. dunder_sub one_collection 0 a_box = Inr (h', 0) \<and> h' 0 = []"
    by (auto simp: one_collection_sources)
  moreover from add_sub_in_place [of one_collection 0 a_sensor] n
  have "dunder_sub one_collection 0 a_sensor = Inl ValueError"
    by blast
  ultimately show ?thesis using i n by blast
qed

text \<open>
  The claim as stated fails for a source that is not in the Collection: \<^verbatim>\<open>c - s\<close> then
  raises and returns nothing.
\<close>

theorem sub_absent_counterexample:
  "a_sensor \<notin> set (one_collection 0) \<and>
   dunder_sub one_collection 0 a_sensor = Inl ValueError \<and>
   dunder_sub one_collection 0 a_sensor \<noteq> Inr (one_collection, 0)"
  by (simp add: one_collection_sources a_box_def a_sensor_def dunder_sub_def remove_source_def)

end
